theory Spec2Isabelle
  imports Main "HOL-Library.AList"
begin

section \<open>Python values\<close>

text \<open>
  The tools of \<^verbatim>\<open>tools/workflow.py\<close> work on what \<^verbatim>\<open>json.load\<close> produces: \<^verbatim>\<open>None\<close>,
  booleans, unbounded integers, floats, strings, lists and string-keyed dicts. A dict is an
  association list in insertion order (Python dicts iterate in that order); a Python dict never
  holds a key twice, which is the predicate \<open>is_dict\<close> below where a theorem needs it.
  A string is its UTF-8 text. A float is carried as the decimal text that denotes it (for a
  float the program itself holds, the text Python prints for it); the embedding does no float
  arithmetic and compares floats by that text.
\<close>

datatype json =
    JNull
  | JBool bool
  | JInt int
  | JFloat string
  | JStr string
  | JList "json list"
  | JDict "(string \<times> json) list"

type_synonym pydict = "(string \<times> json) list"

text \<open>The exceptions that the modelled code can raise.\<close>

datatype py_error =
    TypeError
  | KeyError
  | AttributeError
  | ValueError
  | JSONDecodeError
  | ValidationError
  | OSError string

abbreviation DQ :: char where "DQ \<equiv> CHR 0x22"
abbreviation SQ :: char where "SQ \<equiv> CHR 0x27"
abbreviation BSL :: char where "BSL \<equiv> CHR 0x5C"

definition keys :: "(string \<times> 'a) list \<Rightarrow> string list" where
  "keys d = map fst d"

definition is_dict :: "(string \<times> 'a) list \<Rightarrow> bool" where
  "is_dict d = distinct (keys d)"

subsection \<open>\<^verbatim>\<open>str\<close> and \<^verbatim>\<open>repr\<close>\<close>

definition digit_char :: "nat \<Rightarrow> char" where
  "digit_char n = ''0123456789abcdef'' ! n"

fun str_nat :: "nat \<Rightarrow> string" where
  "str_nat n = (if n < 10 then [digit_char n] else str_nat (n div 10) @ [digit_char (n mod 10)])"

declare str_nat.simps [simp del]

definition str_int :: "int \<Rightarrow> string" where
  "str_int i = (if i < 0 then CHR ''-'' # str_nat (nat (- i)) else str_nat (nat i))"

fun join :: "string \<Rightarrow> string list \<Rightarrow> string" where
  "join sep [] = []"
| "join sep [x] = x"
| "join sep (x # y # ys) = x @ sep @ join sep (y # ys)"

text \<open>
  \<^verbatim>\<open>repr\<close> of a string: double quotes when the text holds a single quote and no double quote,
  single quotes otherwise; the backslash and the chosen quote are escaped, tab, newline and
  carriage return are written \<^verbatim>\<open>\t\<close>, \<^verbatim>\<open>\n\<close>, \<^verbatim>\<open>\r\<close>, every other ASCII control character
  \<^verbatim>\<open>\xNN\<close>. Bytes from 128 on (the UTF-8 of a non-ASCII character) are kept, as Python keeps
  a printable non-ASCII character.
\<close>

definition repr_char :: "char \<Rightarrow> char \<Rightarrow> string" where
  "repr_char q c =
     (if c = BSL then [BSL, BSL]
      else if c = q then [BSL, q]
      else if c = CHR 0x09 then [BSL, CHR ''t'']
      else if c = CHR 0x0A then [BSL, CHR ''n'']
      else if c = CHR 0x0D then [BSL, CHR ''r'']
      else if of_char c < (32::nat) \<or> of_char c = (127::nat)
        then [BSL, CHR ''x'', digit_char (of_char c div 16), digit_char (of_char c mod 16)]
      else [c])"

definition repr_str :: "string \<Rightarrow> string" where
  "repr_str s =
     (let q = (if SQ \<in> set s \<and> DQ \<notin> set s then DQ else SQ)
      in [q] @ concat (map (repr_char q) s) @ [q])"

fun py_repr :: "json \<Rightarrow> string" where
  "py_repr JNull = ''None''"
| "py_repr (JBool b) = (if b then ''True'' else ''False'')"
| "py_repr (JInt i) = str_int i"
| "py_repr (JFloat t) = t"
| "py_repr (JStr s) = repr_str s"
| "py_repr (JList xs) = ''['' @ join '', '' (map py_repr xs) @ '']''"
| "py_repr (JDict d) =
     ''{'' @ join '', '' (map (\<lambda>(k, v). repr_str k @ '': '' @ py_repr v) d) @ ''}''"

definition py_str :: "json \<Rightarrow> string" where
  "py_str v = (case v of JStr s \<Rightarrow> s | _ \<Rightarrow> py_repr v)"

subsection \<open>Operators on values of unknown type\<close>

text \<open>
  \<^verbatim>\<open>key in x\<close> for a string \<open>key\<close>: a key test on a dict, an element test on a list, a substring
  test on a string, and \<^verbatim>\<open>TypeError\<close> on \<^verbatim>\<open>None\<close>, a boolean or a number.
\<close>

fun is_prefix :: "string \<Rightarrow> string \<Rightarrow> bool" where
  "is_prefix [] ys = True"
| "is_prefix (x # xs) [] = False"
| "is_prefix (x # xs) (y # ys) = (x = y \<and> is_prefix xs ys)"

fun is_substring :: "string \<Rightarrow> string \<Rightarrow> bool" where
  "is_substring xs [] = (xs = [])"
| "is_substring xs (y # ys) = (is_prefix xs (y # ys) \<or> is_substring xs ys)"

fun py_in :: "string \<Rightarrow> json \<Rightarrow> py_error + bool" where
  "py_in key (JDict d) = Inr (key \<in> set (keys d))"
| "py_in key (JList xs) = Inr (JStr key \<in> set xs)"
| "py_in key (JStr s) = Inr (is_substring key s)"
| "py_in key v = Inl TypeError"

text \<open>\<^verbatim>\<open>x[key]\<close> for a string \<open>key\<close>: only a dict can be indexed by a string.\<close>

fun py_getitem :: "json \<Rightarrow> string \<Rightarrow> py_error + json" where
  "py_getitem (JDict d) key = (case map_of d key of None \<Rightarrow> Inl KeyError | Some v \<Rightarrow> Inr v)"
| "py_getitem v key = Inl TypeError"

text \<open>\<^verbatim>\<open>x.items()\<close>: only a dict has the method.\<close>

fun py_items :: "json \<Rightarrow> py_error + pydict" where
  "py_items (JDict d) = Inr d"
| "py_items v = Inl AttributeError"


section \<open>JSON text\<close>

text \<open>
  Character classes are read off the bits of the byte: a byte below 32 is an ASCII control
  character, a byte with its top bit set belongs to the UTF-8 of a non-ASCII character.
\<close>

fun is_control :: "char \<Rightarrow> bool" where
  "is_control (Char b0 b1 b2 b3 b4 b5 b6 b7) = (\<not> b5 \<and> \<not> b6 \<and> \<not> b7)"

fun is_ascii :: "char \<Rightarrow> bool" where
  "is_ascii (Char b0 b1 b2 b3 b4 b5 b6 b7) = (\<not> b7)"

definition is_ws :: "char \<Rightarrow> bool" where
  "is_ws c = (c = CHR '' '' \<or> c = CHR 0x09 \<or> c = CHR 0x0A \<or> c = CHR 0x0D)"

definition skip_ws :: "string \<Rightarrow> string" where
  "skip_ws s = dropWhile is_ws s"

definition is_digit :: "char \<Rightarrow> bool" where
  "is_digit c = (c \<in> set ''0123456789'')"

definition nat_of_digits :: "string \<Rightarrow> nat" where
  "nat_of_digits ds = foldl (\<lambda>n c. 10 * n + (of_char c - 48)) 0 ds"

definition hex_val :: "char \<Rightarrow> nat option" where
  "hex_val c =
     (let n = (of_char c :: nat)
      in if 48 \<le> n \<and> n \<le> 57 then Some (n - 48)
         else if 97 \<le> n \<and> n \<le> 102 then Some (n - 87)
         else if 65 \<le> n \<and> n \<le> 70 then Some (n - 55)
         else None)"

definition hex4 :: "string \<Rightarrow> nat option" where
  "hex4 s =
     (case map hex_val (take 4 s) of
        [Some a, Some b, Some c, Some d] \<Rightarrow> Some (((a * 16 + b) * 16 + c) * 16 + d)
      | _ \<Rightarrow> None)"

definition utf8 :: "nat \<Rightarrow> string" where
  "utf8 cp =
     (if cp < 0x80 then [char_of cp]
      else if cp < 0x800 then [char_of (0xC0 + cp div 64), char_of (0x80 + cp mod 64)]
      else if cp < 0x10000 then
        [char_of (0xE0 + cp div 4096), char_of (0x80 + cp div 64 mod 64), char_of (0x80 + cp mod 64)]
      else
        [char_of (0xF0 + cp div 262144), char_of (0x80 + cp div 4096 mod 64),
         char_of (0x80 + cp div 64 mod 64), char_of (0x80 + cp mod 64)])"

subsection \<open>\<^verbatim>\<open>json.loads\<close>\<close>

text \<open>
  A recursive-descent reader of the grammar that Python accepts: white space, \<^verbatim>\<open>null\<close>,
  \<^verbatim>\<open>true\<close>, \<^verbatim>\<open>false\<close>, numbers (an integer when the literal has neither fraction nor
  exponent), strings with their escapes, arrays, objects (a repeated key keeps its first place
  and its last value), and Python's extensions \<^verbatim>\<open>NaN\<close>, \<^verbatim>\<open>Infinity\<close>, \<^verbatim>\<open>-Infinity\<close>. The
  result \<open>None\<close> is \<^verbatim>\<open>json.JSONDecodeError\<close>. The first argument of \<open>parse_value\<close> bounds the
  recursion; \<open>json_loads\<close> starts it at twice the length of the text. The limits of the
  interpreter (recursion depth, digits of an integer) are not modelled.
\<close>

definition unescape :: "char \<Rightarrow> char option" where
  "unescape e =
     (if e = DQ then Some DQ
      else if e = BSL then Some BSL
      else if e = CHR ''/'' then Some CHR ''/''
      else if e = CHR ''b'' then Some (CHR 0x08)
      else if e = CHR ''f'' then Some (CHR 0x0C)
      else if e = CHR ''n'' then Some (CHR 0x0A)
      else if e = CHR ''r'' then Some (CHR 0x0D)
      else if e = CHR ''t'' then Some (CHR 0x09)
      else None)"

definition low_surrogate :: "string \<Rightarrow> nat option" where
  "low_surrogate s =
     (case s of
        a # b # r \<Rightarrow>
          if a = BSL \<and> b = CHR ''u'' then
            (case hex4 r of
               Some lo \<Rightarrow> if 0xDC00 \<le> lo \<and> lo \<le> 0xDFFF then Some lo else None
             | None \<Rightarrow> None)
          else None
      | _ \<Rightarrow> None)"

definition prepend :: "string \<Rightarrow> (string \<times> string) option \<Rightarrow> (string \<times> string) option" where
  "prepend t res = (case res of None \<Rightarrow> None | Some (u, r) \<Rightarrow> Some (t @ u, r))"

text \<open>The text of a string up to its closing quote, and what follows the quote.\<close>

fun scan_string :: "string \<Rightarrow> (string \<times> string) option" where
  "scan_string [] = None"
| "scan_string (c # cs) =
     (if c = DQ then Some ([], cs)
      else if c = BSL then
        (case cs of
           [] \<Rightarrow> None
         | e # r \<Rightarrow>
             if e = CHR ''u'' then
               (case hex4 r of
                  None \<Rightarrow> None
                | Some hi \<Rightarrow>
                    (case (if 0xD800 \<le> hi \<and> hi \<le> 0xDBFF then low_surrogate (drop 4 r)
                           else None) of
                       Some lo \<Rightarrow>
                         prepend (utf8 (0x10000 + (hi - 0xD800) * 1024 + (lo - 0xDC00)))
                           (scan_string (drop 10 r))
                     | None \<Rightarrow> prepend (utf8 hi) (scan_string (drop 4 r))))
             else
               (case unescape e of
                  None \<Rightarrow> None
                | Some ch \<Rightarrow> prepend [ch] (scan_string r)))
      else if is_control c then None
      else prepend [c] (scan_string cs))"

definition scan_number :: "string \<Rightarrow> (json \<times> string) option" where
  "scan_number s =
     (let neg = (s \<noteq> [] \<and> hd s = CHR ''-'');
          s1 = (if neg then tl s else s);
          ds = takeWhile is_digit s1
      in if ds = [] then None
         else
           let ip = (if hd ds = CHR ''0'' then ''0'' else ds);
               s2 = drop (length ip) s1;
               fd = (if s2 \<noteq> [] \<and> hd s2 = CHR ''.'' then takeWhile is_digit (tl s2) else []);
               frac = (if fd = [] then [] else CHR ''.'' # fd);
               s3 = drop (length frac) s2;
               has_e = (s3 \<noteq> [] \<and> (hd s3 = CHR ''e'' \<or> hd s3 = CHR ''E''));
               sg = (if has_e \<and> tl s3 \<noteq> [] \<and> (hd (tl s3) = CHR ''+'' \<or> hd (tl s3) = CHR ''-'')
                     then [hd (tl s3)] else []);
               ed = (if has_e then takeWhile is_digit (drop (1 + length sg) s3) else []);
               ex = (if ed = [] then [] else hd s3 # sg @ ed);
               s4 = drop (length ex) s3
           in if frac = [] \<and> ex = []
              then Some (JInt (if neg then - int (nat_of_digits ip) else int (nat_of_digits ip)), s4)
              else Some (JFloat ((if neg then ''-'' else []) @ ip @ frac @ ex), s4))"

text \<open>\<^verbatim>\<open>dict(pairs)\<close>: a key that comes again keeps its place and takes the later value.\<close>

definition dict_of_pairs :: "(string \<times> json) list \<Rightarrow> pydict" where
  "dict_of_pairs pairs = foldl (\<lambda>d (k, v). AList.update k v d) [] pairs"

fun parse_value :: "nat \<Rightarrow> string \<Rightarrow> (json \<times> string) option"
  and parse_elems :: "nat \<Rightarrow> string \<Rightarrow> (json list \<times> string) option"
  and parse_members :: "nat \<Rightarrow> string \<Rightarrow> ((string \<times> json) list \<times> string) option"
where
  "parse_value 0 s = None"
| "parse_value (Suc n) s =
     (case s of
        [] \<Rightarrow> None
      | c # r \<Rightarrow>
          if c = DQ then
            (case scan_string r of None \<Rightarrow> None | Some (t, r1) \<Rightarrow> Some (JStr t, r1))
          else if c = CHR ''{'' then
            (case skip_ws r of
               [] \<Rightarrow> None
             | c1 # r1 \<Rightarrow>
                 if c1 = CHR ''}'' then Some (JDict [], r1)
                 else (case parse_members n (c1 # r1) of
                         None \<Rightarrow> None
                       | Some (pairs, r2) \<Rightarrow> Some (JDict (dict_of_pairs pairs), r2)))
          else if c = CHR ''['' then
            (case skip_ws r of
               [] \<Rightarrow> None
             | c1 # r1 \<Rightarrow>
                 if c1 = CHR '']'' then Some (JList [], r1)
                 else (case parse_elems n (c1 # r1) of
                         None \<Rightarrow> None
                       | Some (xs, r2) \<Rightarrow> Some (JList xs, r2)))
          else if is_prefix ''null'' s then Some (JNull, drop 4 s)
          else if is_prefix ''true'' s then Some (JBool True, drop 4 s)
          else if is_prefix ''false'' s then Some (JBool False, drop 5 s)
          else
            (case scan_number s of
               Some res \<Rightarrow> Some res
             | None \<Rightarrow>
                 if is_prefix ''NaN'' s then Some (JFloat ''nan'', drop 3 s)
                 else if is_prefix ''Infinity'' s then Some (JFloat ''inf'', drop 8 s)
                 else if is_prefix ''-Infinity'' s then Some (JFloat ''-inf'', drop 9 s)
                 else None))"
| "parse_elems 0 s = None"
| "parse_elems (Suc n) s =
     (case parse_value n s of
        None \<Rightarrow> None
      | Some (v, r) \<Rightarrow>
          (case skip_ws r of
             [] \<Rightarrow> None
           | c # r1 \<Rightarrow>
               if c = CHR '']'' then Some ([v], r1)
               else if c = CHR '','' then
                 (case parse_elems n (skip_ws r1) of
                    None \<Rightarrow> None
                  | Some (vs, r2) \<Rightarrow> Some (v # vs, r2))
               else None))"
| "parse_members 0 s = None"
| "parse_members (Suc n) s =
     (case s of
        [] \<Rightarrow> None
      | q # r \<Rightarrow>
          if q \<noteq> DQ then None
          else
            (case scan_string r of
               None \<Rightarrow> None
             | Some (k, r1) \<Rightarrow>
                 (case skip_ws r1 of
                    [] \<Rightarrow> None
                  | c # r2 \<Rightarrow>
                      if c \<noteq> CHR '':'' then None
                      else
                        (case parse_value n (skip_ws r2) of
                           None \<Rightarrow> None
                         | Some (v, r3) \<Rightarrow>
                             (case skip_ws r3 of
                                [] \<Rightarrow> None
                              | c1 # r4 \<Rightarrow>
                                  if c1 = CHR ''}'' then Some ([(k, v)], r4)
                                  else if c1 = CHR '','' then
                                    (case parse_members n (skip_ws r4) of
                                       None \<Rightarrow> None
                                     | Some (pairs, r5) \<Rightarrow> Some ((k, v) # pairs, r5))
                                  else None)))))"

definition json_loads :: "string \<Rightarrow> json option" where
  "json_loads s =
     (case parse_value (2 * length s + 2) (skip_ws s) of
        None \<Rightarrow> None
      | Some (v, r) \<Rightarrow> if skip_ws r = [] then Some v else None)"

subsection \<open>\<^verbatim>\<open>json.dumps\<close>\<close>

text \<open>
  \<^verbatim>\<open>json.dumps\<close> with its defaults (\<^verbatim>\<open>ensure_ascii\<close>, separators \<^verbatim>\<open>", "\<close> and \<^verbatim>\<open>": "\<close>) and
  with \<^verbatim>\<open>indent=n\<close> (one item per line, separator \<^verbatim>\<open>","\<close>). In a string, the quote, the
  backslash and the control characters are escaped, and every non-ASCII character is written
  \<^verbatim>\<open>\uXXXX\<close>, as a surrogate pair beyond the basic plane.
\<close>

definition hex4_of :: "nat \<Rightarrow> string" where
  "hex4_of n = [digit_char (n div 4096 mod 16), digit_char (n div 256 mod 16),
                digit_char (n div 16 mod 16), digit_char (n mod 16)]"

definition escape_cp :: "nat \<Rightarrow> string" where
  "escape_cp cp =
     (if cp < 0x10000 then [BSL, CHR ''u''] @ hex4_of cp
      else [BSL, CHR ''u''] @ hex4_of (0xD800 + (cp - 0x10000) div 1024)
           @ [BSL, CHR ''u''] @ hex4_of (0xDC00 + (cp - 0x10000) mod 1024))"

definition escape_ascii :: "char \<Rightarrow> string" where
  "escape_ascii c =
     (if c = DQ then [BSL, DQ]
      else if c = BSL then [BSL, BSL]
      else if c = CHR 0x0A then [BSL, CHR ''n'']
      else if c = CHR 0x0D then [BSL, CHR ''r'']
      else if c = CHR 0x09 then [BSL, CHR ''t'']
      else if c = CHR 0x0C then [BSL, CHR ''f'']
      else if c = CHR 0x08 then [BSL, CHR ''b'']
      else if is_control c \<or> c = CHR 0x7F then escape_cp (of_char c)
      else [c])"

text \<open>The number of bytes that follow the first byte of a UTF-8 sequence, and its code point.\<close>

definition utf8_more :: "char \<Rightarrow> nat" where
  "utf8_more a =
     (let n = (of_char a :: nat)
      in if 0xF0 \<le> n then 3 else if 0xE0 \<le> n then 2 else if 0xC0 \<le> n then 1 else 0)"

definition utf8_cp :: "char \<Rightarrow> string \<Rightarrow> nat" where
  "utf8_cp a s =
     (let n = (of_char a :: nat)
      in if 0xF0 \<le> n then
           foldl (\<lambda>cp b. cp * 64 + (of_char b - 0x80)) (n - 0xF0) s
         else if 0xE0 \<le> n then foldl (\<lambda>cp b. cp * 64 + (of_char b - 0x80)) (n - 0xE0) s
         else if 0xC0 \<le> n then foldl (\<lambda>cp b. cp * 64 + (of_char b - 0x80)) (n - 0xC0) s
         else n)"

fun escape_text :: "string \<Rightarrow> string" where
  "escape_text [] = []"
| "escape_text (c # s) =
     (if is_ascii c then escape_ascii c @ escape_text s
      else escape_cp (utf8_cp c (take (utf8_more c) s)) @ escape_text (drop (utf8_more c) s))"

definition dumps_str :: "string \<Rightarrow> string" where
  "dumps_str s = [DQ] @ escape_text s @ [DQ]"

definition dumps_float :: "string \<Rightarrow> string" where
  "dumps_float t =
     (if t = ''nan'' then ''NaN''
      else if t = ''inf'' then ''Infinity''
      else if t = ''-inf'' then ''-Infinity''
      else t)"

definition newline_indent :: "nat option \<Rightarrow> nat \<Rightarrow> string" where
  "newline_indent indent level =
     (case indent of None \<Rightarrow> [] | Some w \<Rightarrow> CHR 0x0A # replicate (w * level) CHR '' '')"

definition item_separator :: "nat option \<Rightarrow> string" where
  "item_separator indent = (case indent of None \<Rightarrow> '', '' | Some w \<Rightarrow> '','')"

fun dumps_at :: "nat option \<Rightarrow> nat \<Rightarrow> json \<Rightarrow> string" where
  "dumps_at indent level JNull = ''null''"
| "dumps_at indent level (JBool b) = (if b then ''true'' else ''false'')"
| "dumps_at indent level (JInt i) = str_int i"
| "dumps_at indent level (JFloat t) = dumps_float t"
| "dumps_at indent level (JStr s) = dumps_str s"
| "dumps_at indent level (JList xs) =
     (if xs = [] then ''[]''
      else ''['' @ newline_indent indent (Suc level)
           @ join (item_separator indent @ newline_indent indent (Suc level))
                  (map (dumps_at indent (Suc level)) xs)
           @ newline_indent indent level @ '']'')"
| "dumps_at indent level (JDict d) =
     (if d = [] then ''{}''
      else ''{'' @ newline_indent indent (Suc level)
           @ join (item_separator indent @ newline_indent indent (Suc level))
                  (map (\<lambda>(k, v). dumps_str k @ '': '' @ dumps_at indent (Suc level) v) d)
           @ newline_indent indent level @ ''}'')"

definition json_dumps :: "json \<Rightarrow> string" where
  "json_dumps v = dumps_at None 0 v"

definition json_dumps_indent :: "nat \<Rightarrow> json \<Rightarrow> string" where
  "json_dumps_indent w v = dumps_at (Some w) 0 v"

section \<open>The graph model\<close>

text \<open>
  A workflow is the dict a tool call receives, a tree of its own: the operations below return
  the dict that the source mutates in place and returns.
\<close>

definition create_workflow :: pydict where
  "create_workflow = []"

definition add_node :: "pydict \<Rightarrow> string \<Rightarrow> string \<Rightarrow> pydict \<Rightarrow> pydict" where
  "add_node workflow node_id node_type inputs =
     AList.update node_id (JDict [(''class_type'', JStr node_type), (''inputs'', JDict inputs)])
       workflow"

definition remove_node :: "pydict \<Rightarrow> string \<Rightarrow> pydict" where
  "remove_node workflow node_id =
     (if node_id \<in> set (keys workflow) then AList.delete node_id workflow else workflow)"



section \<open>The validation engine\<close>

record validation =
  valid :: bool
  node_count :: nat
  issues :: "string list"

text \<open>
  The loop over \<^verbatim>\<open>node["inputs"].items()\<close> of \<^verbatim>\<open>validate_workflow\<close>; \<^verbatim>\<open>issues\<close> is the list the
  source appends to (\<open>iss\<close> here).
\<close>

fun check_inputs :: "string set \<Rightarrow> string \<Rightarrow> pydict \<Rightarrow> string list \<Rightarrow> string list" where
  "check_inputs node_ids node_id [] iss = iss"
| "check_inputs node_ids node_id ((input_name, v) # rest) iss =
     check_inputs node_ids node_id rest
       (case v of
          JList xs \<Rightarrow>
            if length xs = 2 then
              (let ref_node = py_str (xs ! 0)
               in if ref_node \<notin> node_ids
                  then iss @ [''Node '' @ node_id @ ''.'' @ input_name @ '': ''
                                  @ ''references non-existent node '' @ ref_node]
                  else iss)
            else iss
        | _ \<Rightarrow> iss)"

text \<open>The loop over \<^verbatim>\<open>workflow.items()\<close>. Every test of the body can raise.\<close>

fun check_nodes :: "string set \<Rightarrow> pydict \<Rightarrow> string list \<Rightarrow> py_error + string list" where
  "check_nodes node_ids [] iss = Inr iss"
| "check_nodes node_ids ((node_id, node) # rest) iss =
     (case py_in ''class_type'' node of
        Inl e \<Rightarrow> Inl e
      | Inr has_class \<Rightarrow>
          let issues1 = (if \<not> has_class then iss @ [''Node '' @ node_id @ '': missing class_type'']
                         else iss)
          in (case py_in ''inputs'' node of
                Inl e \<Rightarrow> Inl e
              | Inr has_inputs \<Rightarrow>
                  let issues2 = (if \<not> has_inputs
                                 then issues1 @ [''Node '' @ node_id @ '': missing inputs'']
                                 else issues1)
                  in if has_inputs then
                       (case py_getitem node ''inputs'' of
                          Inl e \<Rightarrow> Inl e
                        | Inr ins \<Rightarrow>
                            (case py_items ins of
                               Inl e \<Rightarrow> Inl e
                             | Inr items \<Rightarrow>
                                 check_nodes node_ids rest
                                   (check_inputs node_ids node_id items issues2)))
                     else check_nodes node_ids rest issues2))"

definition validate_workflow :: "pydict \<Rightarrow> py_error + validation" where
  "validate_workflow workflow =
     (let node_ids = set (keys workflow)
      in case check_nodes node_ids workflow [] of
           Inl e \<Rightarrow> Inl e
         | Inr iss \<Rightarrow>
             Inr \<lparr> valid = (length iss = 0),
                   node_count = length workflow,
                   issues = iss \<rparr>)"

text \<open>
  The graphs of the data model: every node is an object, and its \<^verbatim>\<open>inputs\<close>, when it has the
  key, is a mapping. Either field may be missing.
\<close>

fun node_shaped :: "json \<Rightarrow> bool" where
  "node_shaped (JDict d) =
     (case map_of d ''inputs'' of None \<Rightarrow> True | Some (JDict i) \<Rightarrow> True | Some _ \<Rightarrow> False)"
| "node_shaped v = False"

definition graph_shaped :: "pydict \<Rightarrow> bool" where
  "graph_shaped g = list_all (\<lambda>(node_id, node). node_shaped node) g"

text \<open>
  What the specification asks of the validator, in its words: a node that lacks a field is
  reported once for that field; an input whose value is an array of exactly two elements
  names, by its first element coerced to a string, a source node, and is reported when no
  node has that id.
\<close>

fun has_field :: "string \<Rightarrow> json \<Rightarrow> bool" where
  "has_field f (JDict d) = (map_of d f \<noteq> None)"
| "has_field f v = False"

fun inputs_of :: "json \<Rightarrow> pydict" where
  "inputs_of (JDict d) = (case map_of d ''inputs'' of Some (JDict i) \<Rightarrow> i | _ \<Rightarrow> [])"
| "inputs_of v = []"

fun connection_source :: "json \<Rightarrow> string option" where
  "connection_source (JList [a, b]) = Some (py_str a)"
| "connection_source v = None"

definition dangling :: "string set \<Rightarrow> pydict \<Rightarrow> (string \<times> string) list" where
  "dangling node_ids ins =
     List.map_filter
       (\<lambda>(input_name, v). case connection_source v of
            None \<Rightarrow> None
          | Some t \<Rightarrow> if t \<in> node_ids then None else Some (input_name, t)) ins"

definition dangling_issue :: "string \<Rightarrow> string \<times> string \<Rightarrow> string" where
  "dangling_issue node_id = (\<lambda>(input_name, t).
     ''Node '' @ node_id @ ''.'' @ input_name @ '': references non-existent node '' @ t)"

definition node_issues :: "string set \<Rightarrow> string \<times> json \<Rightarrow> string list" where
  "node_issues node_ids = (\<lambda>(node_id, node).
     (if has_field ''class_type'' node then []
      else [''Node '' @ node_id @ '': missing class_type''])
     @ (if has_field ''inputs'' node then [] else [''Node '' @ node_id @ '': missing inputs''])
     @ map (dangling_issue node_id) (dangling node_ids (inputs_of node)))"

section \<open>The template catalog\<close>

definition TEMPLATES :: pydict where
  "TEMPLATES =
     [(''empty'', JDict []),
      (''fal-flux-dev'', JDict
         [(''1'', JDict [(''class_type'', JStr ''RemoteCheckpointLoader_fal''),
                         (''inputs'', JDict [(''ckpt_name'', JStr ''fal-ai/flux/dev'')])]),
          (''2'', JDict [(''class_type'', JStr ''StringInput_fal''),
                         (''inputs'', JDict [(''text'', JStr ''A beautiful landscape'')])]),
          (''3'', JDict [(''class_type'', JStr ''IntegerInput_fal''),
                         (''inputs'', JDict [(''value'', JInt 1024)])]),
          (''4'', JDict [(''class_type'', JStr ''IntegerInput_fal''),
                         (''inputs'', JDict [(''value'', JInt 1024)])]),
          (''5'', JDict [(''class_type'', JStr ''IntegerInput_fal''),
                         (''inputs'', JDict [(''value'', JInt 28)])]),
          (''6'', JDict [(''class_type'', JStr ''FloatInput_fal''),
                         (''inputs'', JDict [(''value'', JFloat ''3.5'')])]),
          (''7'', JDict [(''class_type'', JStr ''SaveImage_fal''),
                         (''inputs'', JDict [(''filename_prefix'', JStr ''flux_output''),
                                             (''images'', JList [JStr ''1'', JInt 0])])])]),
      (''fal-flux-schnell'', JDict
         [(''1'', JDict [(''class_type'', JStr ''RemoteCheckpointLoader_fal''),
                         (''inputs'', JDict [(''ckpt_name'', JStr ''fal-ai/flux/schnell'')])]),
          (''2'', JDict [(''class_type'', JStr ''StringInput_fal''),
                         (''inputs'', JDict [(''text'', JStr ''A beautiful landscape'')])]),
          (''3'', JDict [(''class_type'', JStr ''SaveImage_fal''),
                         (''inputs'', JDict [(''filename_prefix'', JStr ''flux_schnell''),
                                             (''images'', JList [JStr ''1'', JInt 0])])])])]"

section \<open>The typed workflow model\<close>

text \<open>
  \<^verbatim>\<open>models.py\<close>: the pydantic classes \<^verbatim>\<open>WorkflowNode\<close> and \<^verbatim>\<open>Workflow\<close>. Building a
  \<^verbatim>\<open>WorkflowNode\<close> from the keywords of a wire node validates them: \<^verbatim>\<open>class_type\<close> is
  required and must be a string, \<^verbatim>\<open>inputs\<close> must be a mapping and defaults to the empty one,
  and a keyword that is not a field is ignored (the default of pydantic). A value that is not a
  mapping cannot be unpacked into keywords.
\<close>

record WorkflowNode =
  class_type :: string
  inputs :: pydict

record Workflow =
  nodes :: "(string \<times> WorkflowNode) list"

definition WorkflowNode_init :: "json \<Rightarrow> py_error + WorkflowNode" where
  "WorkflowNode_init node_data =
     (case node_data of
        JDict d \<Rightarrow>
          (case map_of d ''class_type'' of
             Some (JStr s) \<Rightarrow>
               (case map_of d ''inputs'' of
                  None \<Rightarrow> Inr \<lparr> class_type = s, inputs = [] \<rparr>
                | Some (JDict i) \<Rightarrow> Inr \<lparr> class_type = s, inputs = i \<rparr>
                | Some _ \<Rightarrow> Inl ValidationError)
           | _ \<Rightarrow> Inl ValidationError)
      | _ \<Rightarrow> Inl TypeError)"

definition model_dump :: "WorkflowNode \<Rightarrow> json" where
  "model_dump v = JDict [(''class_type'', JStr (class_type v)), (''inputs'', JDict (inputs v))]"

definition to_api_format :: "Workflow \<Rightarrow> pydict" where
  "to_api_format self = map (\<lambda>(k, v). (k, model_dump v)) (nodes self)"

text \<open>The loop of \<^verbatim>\<open>from_api_format\<close>; \<open>acc\<close> is the dict \<^verbatim>\<open>nodes\<close> that it fills.\<close>

fun from_api_nodes ::
  "pydict \<Rightarrow> (string \<times> WorkflowNode) list \<Rightarrow> py_error + (string \<times> WorkflowNode) list" where
  "from_api_nodes [] acc = Inr acc"
| "from_api_nodes ((node_id, node_data) # rest) acc =
     (case WorkflowNode_init node_data of
        Inl e \<Rightarrow> Inl e
      | Inr n \<Rightarrow> from_api_nodes rest (AList.update node_id n acc))"

definition from_api_format :: "pydict \<Rightarrow> py_error + Workflow" where
  "from_api_format data =
     (case from_api_nodes data [] of Inl e \<Rightarrow> Inl e | Inr ns \<Rightarrow> Inr \<lparr> nodes = ns \<rparr>)"

text \<open>
  A wire node in the strict sense: an object with exactly the two fields, a string
  \<^verbatim>\<open>class_type\<close> and a mapping \<^verbatim>\<open>inputs\<close>, in either order.
\<close>

fun wire_node :: "json \<Rightarrow> bool" where
  "wire_node (JDict d) =
     (is_dict d \<and> set (keys d) = {''class_type'', ''inputs''}
      \<and> (case map_of d ''class_type'' of Some (JStr s) \<Rightarrow> True | _ \<Rightarrow> False)
      \<and> (case map_of d ''inputs'' of Some (JDict i) \<Rightarrow> True | _ \<Rightarrow> False))"
| "wire_node v = False"

definition wire_document :: "pydict \<Rightarrow> bool" where
  "wire_document data = (is_dict data \<and> list_all (\<lambda>(node_id, node). wire_node node) data)"

text \<open>Two nodes that are equal up to the order of their keys.\<close>

fun same_node :: "json \<Rightarrow> json \<Rightarrow> bool" where
  "same_node (JDict d) (JDict d') = (is_dict d \<and> is_dict d' \<and> map_of d = map_of d')"
| "same_node v v' = (v = v')"

definition same_document :: "pydict \<Rightarrow> pydict \<Rightarrow> bool" where
  "same_document data data' =
     list_all2 (\<lambda>(k, n) (k', n'). k = k' \<and> same_node n n') data data'"

text \<open>The typed node that a strict wire node denotes.\<close>

definition node_of_wire :: "json \<Rightarrow> WorkflowNode" where
  "node_of_wire n =
     (case n of JDict d \<Rightarrow>
        \<lparr> class_type = (case map_of d ''class_type'' of Some (JStr s) \<Rightarrow> s | _ \<Rightarrow> []),
          inputs = (case map_of d ''inputs'' of Some (JDict i) \<Rightarrow> i | _ \<Rightarrow> []) \<rparr>
      | _ \<Rightarrow> \<lparr> class_type = [], inputs = [] \<rparr>)"

section \<open>Error responses\<close>

text \<open>\<^verbatim>\<open>models.py\<close>: the class \<^verbatim>\<open>ErrorResponse\<close>, the two constructors the workflow tools use,
  and the dict that \<^verbatim>\<open>model_dump\<close> makes of it.\<close>

record ErrorResponse =
  error :: string
  code :: string
  details :: "pydict option"
  suggestion :: "string option"

definition not_found :: "string \<Rightarrow> string option \<Rightarrow> ErrorResponse" where
  "not_found resource sugg =
     \<lparr> error = resource @ '' not found'', code = ''NOT_FOUND'', details = None,
       suggestion = sugg \<rparr>"

definition not_configured :: "string \<Rightarrow> ErrorResponse" where
  "not_configured setting =
     \<lparr> error = setting @ '' not configured'', code = ''NOT_CONFIGURED'', details = None,
       suggestion = Some (''Set the '' @ setting @ '' environment variable'') \<rparr>"

definition model_dump_error :: "ErrorResponse \<Rightarrow> json" where
  "model_dump_error e =
     JDict [(''error'', JStr (error e)),
            (''code'', JStr (code e)),
            (''details'', case details e of None \<Rightarrow> JNull | Some d \<Rightarrow> JDict d),
            (''suggestion'', case suggestion e of None \<Rightarrow> JNull | Some t \<Rightarrow> JStr t)]"

section \<open>The persistence adapter\<close>

text \<open>
  The file system is the collaborator of \<^verbatim>\<open>load_workflow\<close> and \<^verbatim>\<open>save_workflow\<close>: a state
  \<open>'fs\<close> and the operations the two tools call on it. \<open>path_join d n\<close> is the text of
  \<^verbatim>\<open>Path(d) / n\<close> and \<open>path_parent\<close> its \<^verbatim>\<open>parent\<close>; \<open>read_text\<close> is \<^verbatim>\<open>open(path)\<close> and the read
  of the whole file, with the exception it raises; \<open>mkdir_parents\<close> is
  \<^verbatim>\<open>mkdir(parents=True, exist_ok=True)\<close> and \<open>write_text\<close> is \<^verbatim>\<open>open(path, "w")\<close>, the write and
  the close, each with the state it leaves and, when it raises, the message of the exception.
\<close>

record 'fs file_system =
  path_join :: "string \<Rightarrow> string \<Rightarrow> string"
  path_parent :: "string \<Rightarrow> string"
  path_exists :: "'fs \<Rightarrow> string \<Rightarrow> bool"
  read_text :: "'fs \<Rightarrow> string \<Rightarrow> py_error + string"
  mkdir_parents :: "'fs \<Rightarrow> string \<Rightarrow> string option \<times> 'fs"
  write_text :: "'fs \<Rightarrow> string \<Rightarrow> string \<Rightarrow> string option \<times> 'fs"

text \<open>\<^verbatim>\<open>not settings.workflows_dir\<close>: the setting is \<^verbatim>\<open>None\<close> or the empty string.\<close>

definition unset :: "string option \<Rightarrow> bool" where
  "unset dir = (dir = None \<or> dir = Some [])"

definition endswith :: "string \<Rightarrow> string \<Rightarrow> bool" where
  "endswith s suffix = is_prefix (rev suffix) (rev s)"

text \<open>The result \<open>Inl\<close> is an exception that leaves \<^verbatim>\<open>load_workflow\<close>; an error that the tool
  reports is the dict of an \<^verbatim>\<open>ErrorResponse\<close>, returned as any other value.\<close>

definition load_workflow ::
  "'fs file_system \<Rightarrow> string option \<Rightarrow> 'fs \<Rightarrow> string \<Rightarrow> py_error + json" where
  "load_workflow os workflows_dir fs workflow_name =
     (if unset workflows_dir
      then Inr (model_dump_error (not_configured ''COMFY_WORKFLOWS_DIR''))
      else
        let wf_path = path_join os (the workflows_dir) workflow_name
        in if \<not> path_exists os fs wf_path
           then Inr (model_dump_error
                       (not_found (''Workflow '' @ [SQ] @ workflow_name @ [SQ])
                          (Some ''Use list_workflows() to see available workflows'')))
           else
             (case read_text os fs wf_path of
                Inl e \<Rightarrow> Inl e
              | Inr text \<Rightarrow>
                  (case json_loads text of
                     None \<Rightarrow> Inl JSONDecodeError
                   | Some v \<Rightarrow> Inr v)))"

text \<open>The path that \<^verbatim>\<open>save_workflow\<close> writes: the name, with \<^verbatim>\<open>.json\<close> appended when it
  does not end so, under the workflows directory.\<close>

definition save_path :: "'fs file_system \<Rightarrow> string option \<Rightarrow> string \<Rightarrow> string" where
  "save_path os workflows_dir name =
     path_join os (the workflows_dir) (if \<not> endswith name ''.json'' then name @ ''.json'' else name)"

text \<open>\<^verbatim>\<open>save_workflow\<close> returns its message and the state of the file system it leaves. The
  \<^verbatim>\<open>try\<close> block holds the two operations; \<^verbatim>\<open>except Exception as e\<close> turns what either raises
  into the message \<^verbatim>\<open>f"Error: {e}"\<close>.\<close>

definition save_workflow ::
  "'fs file_system \<Rightarrow> string option \<Rightarrow> 'fs \<Rightarrow> pydict \<Rightarrow> string \<Rightarrow> string \<times> 'fs" where
  "save_workflow os workflows_dir fs workflow name =
     (if unset workflows_dir then (''Error: COMFY_WORKFLOWS_DIR not configured'', fs)
      else
        let path = save_path os workflows_dir name
        in case mkdir_parents os fs (path_parent os path) of
             (Some e, fs1) \<Rightarrow> (''Error: '' @ e, fs1)
           | (None, fs1) \<Rightarrow>
               (case write_text os fs1 path (json_dumps_indent 2 (JDict workflow)) of
                  (Some e, fs2) \<Rightarrow> (''Error: '' @ e, fs2)
                | (None, fs2) \<Rightarrow> (''Saved: '' @ path, fs2)))"

text \<open>
  A file system for the examples: the files, as a list of paths with their texts, under
  directories that always exist; nothing fails but the read of a missing file.
\<close>

definition plain_files :: "(string \<times> string) list file_system" where
  "plain_files =
     \<lparr> path_join = (\<lambda>d n. d @ ''/'' @ n),
       path_parent = (\<lambda>p. rev (tl (dropWhile (\<lambda>c. c \<noteq> CHR ''/'') (rev p)))),
       path_exists = (\<lambda>fs p. p \<in> set (map fst fs)),
       read_text = (\<lambda>fs p. case map_of fs p of
                               None \<Rightarrow> Inl (OSError ''No such file or directory'')
                             | Some t \<Rightarrow> Inr t),
       mkdir_parents = (\<lambda>fs p. (None, fs)),
       write_text = (\<lambda>fs p t. (None, AList.update p t fs)) \<rparr>"

text \<open>The same, on a disk where no directory can be made.\<close>

definition failing_disk :: "(string \<times> string) list file_system" where
  "failing_disk = plain_files \<lparr> mkdir_parents := \<lambda>fs p. (Some ''Permission denied'', fs) \<rparr>"

text \<open>The same, on a disk where no file can be written.\<close>

definition full_disk :: "(string \<times> string) list file_system" where
  "full_disk = plain_files \<lparr> write_text := \<lambda>fs p t. (Some ''No space left on device'', fs) \<rparr>"

section \<open>Objects and references\<close>

text \<open>
  The catalog is a module global that every call of \<^verbatim>\<open>get_workflow_template\<close> reads, so the
  values it reaches are objects with an identity: a heap is the list of the dicts and lists
  that exist, an address is a position in it, and a value is a scalar or a reference.
  \<open>alloc\<close> builds the objects of a JSON value (what \<^verbatim>\<open>json.loads\<close> or a literal does), the
  parts before the whole; nothing that exists is changed. \<open>read_value\<close> reads the JSON value
  off a reference (the traversal of \<^verbatim>\<open>json.dumps\<close>); its first argument bounds the nesting,
  and \<open>None\<close> is the \<^verbatim>\<open>ValueError\<close> of a circular reference.
\<close>

type_synonym addr = nat

datatype pyval = VNone | VBool bool | VInt int | VFloat string | VStr string | VRef addr

datatype pyobj = ODict "(string \<times> pyval) list" | OList "pyval list"

type_synonym heap = "pyobj list"

fun alloc :: "json \<Rightarrow> heap \<Rightarrow> pyval \<times> heap"
  and alloc_list :: "json list \<Rightarrow> heap \<Rightarrow> pyval list \<times> heap"
  and alloc_items :: "pydict \<Rightarrow> heap \<Rightarrow> (string \<times> pyval) list \<times> heap"
where
  "alloc JNull h = (VNone, h)"
| "alloc (JBool b) h = (VBool b, h)"
| "alloc (JInt i) h = (VInt i, h)"
| "alloc (JFloat t) h = (VFloat t, h)"
| "alloc (JStr s) h = (VStr s, h)"
| "alloc (JList xs) h = (case alloc_list xs h of (vs, h1) \<Rightarrow> (VRef (length h1), h1 @ [OList vs]))"
| "alloc (JDict d) h = (case alloc_items d h of (kvs, h1) \<Rightarrow> (VRef (length h1), h1 @ [ODict kvs]))"
| "alloc_list [] h = ([], h)"
| "alloc_list (x # xs) h =
     (case alloc x h of (v, h1) \<Rightarrow> (case alloc_list xs h1 of (vs, h2) \<Rightarrow> (v # vs, h2)))"
| "alloc_items [] h = ([], h)"
| "alloc_items ((k, x) # d) h =
     (case alloc x h of (v, h1) \<Rightarrow> (case alloc_items d h1 of (kvs, h2) \<Rightarrow> ((k, v) # kvs, h2)))"

fun read_value :: "nat \<Rightarrow> heap \<Rightarrow> pyval \<Rightarrow> json option"
  and read_list :: "nat \<Rightarrow> heap \<Rightarrow> pyval list \<Rightarrow> json list option"
  and read_items :: "nat \<Rightarrow> heap \<Rightarrow> (string \<times> pyval) list \<Rightarrow> pydict option"
where
  "read_value n h VNone = Some JNull"
| "read_value n h (VBool b) = Some (JBool b)"
| "read_value n h (VInt i) = Some (JInt i)"
| "read_value n h (VFloat t) = Some (JFloat t)"
| "read_value n h (VStr s) = Some (JStr s)"
| "read_value 0 h (VRef a) = None"
| "read_value (Suc n) h (VRef a) =
     (if a < length h then
        (case h ! a of
           OList vs \<Rightarrow> map_option JList (read_list n h vs)
         | ODict kvs \<Rightarrow> map_option JDict (read_items n h kvs))
      else None)"
| "read_list n h [] = Some []"
| "read_list n h (v # vs) =
     (case read_value n h v of
        None \<Rightarrow> None
      | Some x \<Rightarrow> map_option ((#) x) (read_list n h vs))"
| "read_items n h [] = Some []"
| "read_items n h ((k, v) # kvs) =
     (case read_value n h v of
        None \<Rightarrow> None
      | Some x \<Rightarrow> map_option ((#) (k, x)) (read_items n h kvs))"

fun height :: "json \<Rightarrow> nat"
  and height_list :: "json list \<Rightarrow> nat"
  and height_items :: "pydict \<Rightarrow> nat"
where
  "height (JList xs) = Suc (height_list xs)"
| "height (JDict d) = Suc (height_items d)"
| "height x = 0"
| "height_list [] = 0"
| "height_list (x # xs) = max (height x) (height_list xs)"
| "height_items [] = 0"
| "height_items ((k, x) # d) = max (height x) (height_items d)"

definition json_of :: "heap \<Rightarrow> pyval \<Rightarrow> json option" where
  "json_of h v = read_value (length h) h v"

text \<open>The addresses a value holds, and the objects that can be reached from a value.\<close>

fun refs_val :: "pyval \<Rightarrow> addr set" where
  "refs_val (VRef a) = {a}"
| "refs_val v = {}"

fun refs_obj :: "pyobj \<Rightarrow> addr set" where
  "refs_obj (OList vs) = \<Union> (refs_val ` set vs)"
| "refs_obj (ODict kvs) = \<Union> (refs_val ` snd ` set kvs)"

inductive_set reachable :: "heap \<Rightarrow> pyval \<Rightarrow> addr set" for h :: heap and v :: pyval where
  root: "a \<in> refs_val v \<Longrightarrow> a \<in> reachable h v"
| step: "a \<in> reachable h v \<Longrightarrow> a < length h \<Longrightarrow> b \<in> refs_obj (h ! a) \<Longrightarrow> b \<in> reachable h v"

text \<open>\<open>extends h0 h\<close>: the heap \<open>h\<close> holds the objects of \<open>h0\<close> as they are, and maybe more.
  \<open>keeps lo hi h h2\<close>: the objects of \<open>h\<close> at the addresses from \<open>lo\<close> up to \<open>hi\<close> are in \<open>h2\<close>
  as they are.\<close>

definition extends :: "heap \<Rightarrow> heap \<Rightarrow> bool" where
  "extends h0 h = (length h0 \<le> length h \<and> (\<forall>a < length h0. h ! a = h0 ! a))"

definition keeps :: "nat \<Rightarrow> nat \<Rightarrow> heap \<Rightarrow> heap \<Rightarrow> bool" where
  "keeps lo hi h h2 = (\<forall>a. lo \<le> a \<and> a < hi \<longrightarrow> a < length h2 \<and> h2 ! a = h ! a)"

text \<open>The module when it is loaded: the objects of the literal \<^verbatim>\<open>TEMPLATES\<close>, and the global
  that refers to the catalog.\<close>

definition module_heap :: heap where
  "module_heap = snd (alloc (JDict TEMPLATES) [])"

definition TEMPLATES_ref :: pyval where
  "TEMPLATES_ref = fst (alloc (JDict TEMPLATES) [])"

definition heap_dict :: "heap \<Rightarrow> pyval \<Rightarrow> py_error + (string \<times> pyval) list" where
  "heap_dict h v =
     (case v of
        VRef a \<Rightarrow>
          if a < length h then (case h ! a of ODict kvs \<Rightarrow> Inr kvs | OList vs \<Rightarrow> Inl TypeError)
          else Inl TypeError
      | _ \<Rightarrow> Inl TypeError)"

text \<open>\<^verbatim>\<open>json.dumps\<close> of an object and \<^verbatim>\<open>json.loads\<close> into new objects.\<close>

definition heap_dumps :: "heap \<Rightarrow> pyval \<Rightarrow> py_error + string" where
  "heap_dumps h v = (case json_of h v of None \<Rightarrow> Inl ValueError | Some t \<Rightarrow> Inr (json_dumps t))"

definition heap_loads :: "string \<Rightarrow> heap \<Rightarrow> py_error + pyval \<times> heap" where
  "heap_loads s h = (case json_loads s of None \<Rightarrow> Inl JSONDecodeError | Some t \<Rightarrow> Inr (alloc t h))"

definition get_workflow_template :: "heap \<Rightarrow> string \<Rightarrow> py_error + pyval \<times> heap" where
  "get_workflow_template h template_name =
     (case heap_dict h TEMPLATES_ref of
        Inl e \<Rightarrow> Inl e
      | Inr templates \<Rightarrow>
          if template_name \<notin> set (keys templates) then
            Inr (alloc (model_dump_error
                          (not_found (''Template '' @ [SQ] @ template_name @ [SQ])
                             (Some (''Available: '' @ py_str (JList (map JStr (keys templates)))))))
                   h)
          else
            (case map_of templates template_name of
               None \<Rightarrow> Inl KeyError
             | Some v \<Rightarrow>
                 (case heap_dumps h v of
                    Inl e \<Rightarrow> Inl e
                  | Inr s \<Rightarrow> heap_loads s h)))"

text \<open>\<^verbatim>\<open>list_templates\<close>: the keys of the catalog, in a new list.\<close>

definition list_templates :: "heap \<Rightarrow> py_error + pyval \<times> heap" where
  "list_templates h =
     (case heap_dict h TEMPLATES_ref of
        Inl e \<Rightarrow> Inl e
      | Inr templates \<Rightarrow> Inr (VRef (length h), h @ [OList (map VStr (keys templates))]))"

text \<open>The two-node graph of the specification's examples.\<close>

definition example_graph :: pydict where
  "example_graph =
     [(''1'', JDict [(''class_type'', JStr ''A''), (''inputs'', JDict [])]),
      (''2'', JDict [(''class_type'', JStr ''B''),
                     (''inputs'', JDict [(''x'', JList [JStr ''1'', JInt 0])])])]"

section \<open>Properties\<close>

subsection \<open>The validator\<close>

lemma connection_source_cases:
  "connection_source v =
     (case v of JList xs \<Rightarrow> if length xs = 2 then Some (py_str (xs ! 0)) else None
              | _ \<Rightarrow> None)"
proof (cases v)
  case (JList xs)
  show ?thesis
  proof (cases xs)
    case Nil
    with JList show ?thesis by simp
  next
    case (Cons a ys)
    show ?thesis
    proof (cases ys)
      case Nil
      with JList Cons show ?thesis by simp
    next
      case (Cons b zs)
      with JList \<open>xs = a # ys\<close> show ?thesis by (cases zs) simp_all
    qed
  qed
qed simp_all

lemma check_inputs_eq:
  "check_inputs node_ids node_id ins iss
     = iss @ map (dangling_issue node_id) (dangling node_ids ins)"
proof (induction ins arbitrary: iss)
  case Nil
  show ?case by (simp add: dangling_def)
next
  case (Cons p ins)
  obtain input_name v where p: "p = (input_name, v)" by (cases p)
  show ?case
    unfolding p
    by (simp add: Cons.IH dangling_def connection_source_cases dangling_issue_def Let_def
             split: json.splits)
qed

lemma in_keys_iff: "(f \<in> set (keys d)) = (map_of d f \<noteq> None)"
  by (simp add: keys_def map_of_eq_None_iff)

lemma check_nodes_eq:
  "graph_shaped g \<Longrightarrow>
     check_nodes node_ids g iss = Inr (iss @ concat (map (node_issues node_ids) g))"
proof (induction g arbitrary: iss)
  case Nil
  show ?case by simp
next
  case (Cons p g)
  obtain node_id node where p: "p = (node_id, node)" by (cases p)
  from Cons.prems have sh: "node_shaped node" and rest: "graph_shaped g"
    by (simp_all add: graph_shaped_def p)
  from sh obtain d where d: "node = JDict d" by (cases node) simp_all
  show ?case
  proof (cases "map_of d ''inputs''")
    case None
    then show ?thesis
      unfolding p d
      by (simp add: in_keys_iff Cons.IH [OF rest] node_issues_def dangling_def)
  next
    case (Some ins)
    with sh d obtain i where i: "ins = JDict i" by (cases ins) simp_all
    show ?thesis
      unfolding p d
      by (simp add: in_keys_iff Some i Cons.IH [OF rest] node_issues_def check_inputs_eq)
  qed
qed

text \<open>
  C1, as the code has it. On every graph whose nodes are all objects and whose \<^verbatim>\<open>inputs\<close>,
  where present, are mappings, \<open>validate_workflow\<close> returns a record: its \<open>node_count\<close> is the
  number of nodes, its \<open>issues\<close> are, node after node in the order of the graph, one entry
  when the node lacks \<^verbatim>\<open>class_type\<close>, one when it lacks \<^verbatim>\<open>inputs\<close>, and one "references
  non-existent node" entry for each input that is an array of exactly two elements whose first
  element, coerced to a string, is not a key of the graph, naming the node, the input and the
  missing target; \<open>valid\<close> holds exactly when there is no issue.
\<close>

theorem validate_workflow_characterised:
  assumes "is_dict g" and "graph_shaped g"
  shows "\<exists>r. validate_workflow g = Inr r
           \<and> node_count r = card (set (keys g))
           \<and> issues r = concat (map (node_issues (set (keys g))) g)
           \<and> (valid r \<longleftrightarrow> issues r = [])"
proof -
  have "length g = card (set (keys g))"
  proof -
    have "card (set (keys g)) = length (keys g)"
      using assms(1) by (simp add: is_dict_def distinct_card)
    then show ?thesis by (simp add: keys_def)
  qed
  then show ?thesis
    by (simp add: validate_workflow_def Let_def check_nodes_eq [OF assms(2)])
qed

theorem validate_workflow_characterised_witness:
  "is_dict [(''1'', JDict [(''class_type'', JStr ''A''), (''inputs'', JDict [])]),
            (''2'', JDict [(''inputs'', JDict [(''x'', JList [JInt 9, JInt 0]),
                                              (''y'', JList [JStr ''1'', JInt 0])])]),
            (''3'', JDict [])]
   \<and> graph_shaped [(''1'', JDict [(''class_type'', JStr ''A''), (''inputs'', JDict [])]),
            (''2'', JDict [(''inputs'', JDict [(''x'', JList [JInt 9, JInt 0]),
                                              (''y'', JList [JStr ''1'', JInt 0])])]),
            (''3'', JDict [])]
   \<and> (\<exists>r. validate_workflow
              [(''1'', JDict [(''class_type'', JStr ''A''), (''inputs'', JDict [])]),
               (''2'', JDict [(''inputs'', JDict [(''x'', JList [JInt 9, JInt 0]),
                                                 (''y'', JList [JStr ''1'', JInt 0])])]),
               (''3'', JDict [])] = Inr r
          \<and> node_count r = 3
          \<and> issues r = [''Node 2: missing class_type'',
                         ''Node 2.x: references non-existent node 9'',
                         ''Node 3: missing class_type'',
                         ''Node 3: missing inputs'']
          \<and> \<not> valid r)"
proof -
  let ?g = "[(''1'', JDict [(''class_type'', JStr ''A''), (''inputs'', JDict [])]),
            (''2'', JDict [(''inputs'', JDict [(''x'', JList [JInt 9, JInt 0]),
                                              (''y'', JList [JStr ''1'', JInt 0])])]),
            (''3'', JDict [])]"
  have d: "is_dict ?g" by (simp add: is_dict_def keys_def)
  have s: "graph_shaped ?g" by (simp add: graph_shaped_def)
  have k: "card (set (keys ?g)) = 3" by (simp add: keys_def)
  have i: "concat (map (node_issues (set (keys ?g))) ?g)
            = [''Node 2: missing class_type'',
                         ''Node 2.x: references non-existent node 9'',
                         ''Node 3: missing class_type'',
                         ''Node 3: missing inputs'']"
    by (simp add: node_issues_def dangling_def dangling_issue_def keys_def py_str_def
          str_int_def str_nat.simps digit_char_def)
  from validate_workflow_characterised [OF d s] d s show ?thesis
    unfolding k i by auto
qed

text \<open>
  The claim as worded, for every mapping from node ids to values, fails outside those graphs:
  a node whose \<^verbatim>\<open>inputs\<close> is a number has no inputs mapping, and the validator raises on it
  instead of returning a record; a node that is the list \<^verbatim>\<open>["class_type"]\<close> has no
  \<^verbatim>\<open>class_type\<close> field, and the membership test takes the element of the list for one, so
  that only the missing \<^verbatim>\<open>inputs\<close> is reported.
\<close>

theorem validate_workflow_outside_model:
  "validate_workflow [(''1'', JDict [(''class_type'', JStr ''A''), (''inputs'', JInt 5)])]
     = Inl AttributeError
   \<and> validate_workflow [(''1'', JList [JStr ''class_type''])]
     = Inr \<lparr> valid = False, node_count = 1, issues = [''Node 1: missing inputs''] \<rparr>"
  by (simp add: validate_workflow_def keys_def)

subsection \<open>Removing a node\<close>

lemma remove_node_filter: "remove_node g k = filter (\<lambda>p. fst p \<noteq> k) g"
proof (cases "k \<in> set (keys g)")
  case True
  have "AList.delete k g = filter (\<lambda>p. fst p \<noteq> k) g" by (induction g) auto
  with True show ?thesis by (simp add: remove_node_def)
next
  case False
  then have "\<forall>p \<in> set g. fst p \<noteq> k" by (auto simp: keys_def)
  then have "filter (\<lambda>p. fst p \<noteq> k) g = g" by (simp add: filter_id_conv)
  with False show ?thesis by (simp add: remove_node_def)
qed

text \<open>
  C5. \<open>remove_node\<close> keeps exactly the entries whose id is not the given one, unchanged and
  in their order: the mapping at the id is gone, every other lookup is as before (a connection
  that names the removed node is not touched), and a graph without the id comes back as it
  was. On the example graph, removing node 1 leaves node 2 as it was, and validation then
  fails with the single issue that cites node 2, input x and the missing target 1.
\<close>

theorem remove_node_exact:
  "remove_node g k = filter (\<lambda>p. fst p \<noteq> k) g
   \<and> map_of (remove_node g k) = (map_of g)(k := None)
   \<and> (k \<notin> set (keys g) \<longrightarrow> remove_node g k = g)
   \<and> remove_node example_graph ''1''
       = [(''2'', JDict [(''class_type'', JStr ''B''),
                         (''inputs'', JDict [(''x'', JList [JStr ''1'', JInt 0])])])]
   \<and> validate_workflow (remove_node example_graph ''1'')
       = Inr \<lparr> valid = False, node_count = 1,
               issues = [''Node 2.x: references non-existent node 1''] \<rparr>"
proof -
  have a: "remove_node g k = filter (\<lambda>p. fst p \<noteq> k) g" by (rule remove_node_filter)
  have b: "map_of (remove_node g k) = (map_of g)(k := None)"
    by (auto simp add: remove_node_def delete_conv' in_keys_iff fun_eq_iff)
  have c: "k \<notin> set (keys g) \<longrightarrow> remove_node g k = g" by (simp add: remove_node_def)
  have d: "remove_node example_graph ''1''
       = [(''2'', JDict [(''class_type'', JStr ''B''),
                         (''inputs'', JDict [(''x'', JList [JStr ''1'', JInt 0])])])]"
    by (simp add: remove_node_filter example_graph_def)
  have e: "validate_workflow (remove_node example_graph ''1'')
       = Inr \<lparr> valid = False, node_count = 1,
               issues = [''Node 2.x: references non-existent node 1''] \<rparr>"
    unfolding d by (simp add: validate_workflow_def keys_def py_str_def)
  from a b c d e show ?thesis by blast
qed

theorem remove_node_exact_witness:
  "''9'' \<notin> set (keys example_graph) \<and> remove_node example_graph ''9'' = example_graph"
proof -
  have h: "''9'' \<notin> set (keys example_graph)" by (simp add: example_graph_def keys_def)
  from remove_node_exact [of example_graph "''9''"] h show ?thesis by blast
qed

subsection \<open>The bundled templates\<close>

text \<open>
  C9. Each graph of the catalog passes validation: \<open>validate_workflow\<close> returns \<open>valid\<close> and no
  issue on \<^verbatim>\<open>empty\<close>, \<^verbatim>\<open>fal-flux-dev\<close> and \<^verbatim>\<open>fal-flux-schnell\<close>.
\<close>

theorem templates_valid:
  "map (\<lambda>(name, g). (name, case g of JDict d \<Rightarrow> validate_workflow d | _ \<Rightarrow> Inl TypeError))
       TEMPLATES
   = [(''empty'', Inr \<lparr> valid = True, node_count = 0, issues = [] \<rparr>),
      (''fal-flux-dev'', Inr \<lparr> valid = True, node_count = 7, issues = [] \<rparr>),
      (''fal-flux-schnell'', Inr \<lparr> valid = True, node_count = 3, issues = [] \<rparr>)]"
  by (simp add: TEMPLATES_def validate_workflow_def keys_def py_str_def)

subsection \<open>Updating an input\<close>







subsection \<open>Malformed graphs\<close>








subsection \<open>The wire format\<close>

lemma from_api_nodes_append:
  assumes "distinct (map fst (acc @ ns))"
  shows "from_api_nodes (map (\<lambda>(k, v). (k, model_dump v)) ns) acc = Inr (acc @ ns)"
  using assms
proof (induction ns arbitrary: acc)
  case Nil
  show ?case by simp
next
  case (Cons p ns)
  obtain k v where p: "p = (k, v)" by (cases p)
  from Cons.prems have notin: "k \<notin> fst ` set acc" by (auto simp: p)
  have upd: "AList.update k v acc = acc @ [(k, v)]"
    using notin by (induction acc) auto
  have init: "WorkflowNode_init (model_dump v) = Inr v"
    by (simp add: WorkflowNode_init_def model_dump_def)
  from Cons.prems have "distinct (map fst ((acc @ [(k, v)]) @ ns))" by (simp add: p)
  from Cons.IH [OF this] show ?case by (simp add: p init upd)
qed

lemma from_to_api_format:
  "is_dict (nodes w) \<Longrightarrow> from_api_format (to_api_format w) = Inr w"
  using from_api_nodes_append [of "[]" "nodes w"]
  by (simp add: from_api_format_def to_api_format_def is_dict_def keys_def)



lemma wire_node_init: "wire_node n \<Longrightarrow> WorkflowNode_init n = Inr (node_of_wire n)"
  by (cases n) (auto simp: WorkflowNode_init_def node_of_wire_def split: option.splits json.splits)

lemma from_api_nodes_wire:
  assumes "distinct (map fst acc @ map fst data)"
    and "list_all (\<lambda>(node_id, node). wire_node node) data"
  shows "from_api_nodes data acc = Inr (acc @ map (\<lambda>(k, n). (k, node_of_wire n)) data)"
  using assms
proof (induction data arbitrary: acc)
  case Nil
  show ?case by simp
next
  case (Cons p data)
  obtain k n where p: "p = (k, n)" by (cases p)
  from Cons.prems have notin: "k \<notin> fst ` set acc" and w: "wire_node n"
    and rest: "list_all (\<lambda>(node_id, node). wire_node node) data"
    by (auto simp: p)
  have upd: "AList.update k (node_of_wire n) acc = acc @ [(k, node_of_wire n)]"
    using notin by (induction acc) auto
  from Cons.prems have "distinct (map fst (acc @ [(k, node_of_wire n)]) @ map fst data)"
    by (simp add: p)
  from Cons.IH [OF this rest] show ?case by (simp add: p wire_node_init [OF w] upd)
qed

lemma two_keys_map_of:
  assumes "distinct (map fst d)" and "fst ` set d = {a, b}" and "a \<noteq> b"
    and "map_of d a = Some x" and "map_of d b = Some y"
  shows "map_of d = map_of [(a, x), (b, y)]"
proof
  fix k
  show "map_of d k = map_of [(a, x), (b, y)] k"
  proof (cases "k = a \<or> k = b")
    case True
    with assms show ?thesis by auto
  next
    case False
    with assms(2) have "k \<notin> fst ` set d" by auto
    then have "map_of d k = None" by (simp add: map_of_eq_None_iff)
    with False show ?thesis by simp
  qed
qed

lemma wire_node_same: "wire_node n \<Longrightarrow> same_node (model_dump (node_of_wire n)) n"
proof (cases n)
  case (JDict d)
  assume w: "wire_node n"
  from w JDict obtain s i where s: "map_of d ''class_type'' = Some (JStr s)"
    and i: "map_of d ''inputs'' = Some (JDict i)"
    by (auto split: option.splits json.splits)
  from w JDict have dd: "distinct (map fst d)" and ks: "fst ` set d = {''class_type'', ''inputs''}"
    by (auto simp: is_dict_def keys_def)
  have "map_of d = map_of [(''class_type'', JStr s), (''inputs'', JDict i)]"
    by (rule two_keys_map_of [OF dd ks _ s i]) simp
  then show ?thesis
    using dd by (simp add: JDict model_dump_def node_of_wire_def s i is_dict_def keys_def)
qed simp_all

lemma to_from_api_format:
  assumes "wire_document data"
  shows "\<exists>w. from_api_format data = Inr w \<and> same_document (to_api_format w) data"
proof -
  from assms have d: "distinct (map fst [] @ map fst data)"
    and l: "list_all (\<lambda>(node_id, node). wire_node node) data"
    by (simp_all add: wire_document_def is_dict_def keys_def)
  have f: "from_api_format data = Inr \<lparr> nodes = map (\<lambda>(k, n). (k, node_of_wire n)) data \<rparr>"
    using from_api_nodes_wire [OF d l] by (simp add: from_api_format_def)
  have "same_document (map (\<lambda>(k, v). (k, model_dump v)) (map (\<lambda>(k, n). (k, node_of_wire n)) data)) data"
    using l
  proof (induction data)
    case Nil
    show ?case by (simp add: same_document_def)
  next
    case (Cons p data)
    obtain k n where p: "p = (k, n)" by (cases p)
    from Cons show ?case by (simp add: same_document_def p wire_node_same)
  qed
  with f show ?thesis by (simp add: to_api_format_def)
qed

text \<open>
  C2, as the code has it. Every \<^verbatim>\<open>Workflow\<close> value comes back from its wire form. A wire
  document comes back, up to the order of the keys of its nodes, from the \<^verbatim>\<open>Workflow\<close> it is
  read into when each of its nodes is an object with exactly a string \<^verbatim>\<open>class_type\<close> and a
  mapping \<^verbatim>\<open>inputs\<close>.
\<close>

theorem api_format_round_trip:
  "(is_dict (nodes w) \<longrightarrow> from_api_format (to_api_format w) = Inr w)
   \<and> (wire_document data \<longrightarrow>
        (\<exists>w'. from_api_format data = Inr w' \<and> same_document (to_api_format w') data))"
  using from_to_api_format to_from_api_format by blast

theorem api_format_round_trip_witness:
  "is_dict (nodes \<lparr> nodes = [(''1'', \<lparr> class_type = ''A'', inputs = [(''n'', JInt 1)] \<rparr>)] \<rparr>)
   \<and> from_api_format
        (to_api_format \<lparr> nodes = [(''1'', \<lparr> class_type = ''A'', inputs = [(''n'', JInt 1)] \<rparr>)] \<rparr>)
       = Inr \<lparr> nodes = [(''1'', \<lparr> class_type = ''A'', inputs = [(''n'', JInt 1)] \<rparr>)] \<rparr>
   \<and> wire_document [(''2'', JDict [(''inputs'', JDict [(''x'', JList [JStr ''1'', JInt 0])]),
                                  (''class_type'', JStr ''B'')])]
   \<and> (\<exists>w'. from_api_format
               [(''2'', JDict [(''inputs'', JDict [(''x'', JList [JStr ''1'', JInt 0])]),
                               (''class_type'', JStr ''B'')])] = Inr w'
          \<and> same_document (to_api_format w')
               [(''2'', JDict [(''inputs'', JDict [(''x'', JList [JStr ''1'', JInt 0])]),
                               (''class_type'', JStr ''B'')])])"
proof -
  let ?w = "\<lparr> nodes = [(''1'', \<lparr> class_type = ''A'', inputs = [(''n'', JInt 1)] \<rparr>)] \<rparr>"
  let ?d = "[(''2'', JDict [(''inputs'', JDict [(''x'', JList [JStr ''1'', JInt 0])]),
                            (''class_type'', JStr ''B'')])]"
  have h1: "is_dict (nodes ?w)" by (simp add: is_dict_def keys_def)
  have h2: "wire_document ?d" by (auto simp: wire_document_def is_dict_def keys_def)
  from api_format_round_trip [of ?w ?d] h1 h2 show ?thesis by blast
qed

text \<open>
  The claim as worded, for every wire document, fails on a node without \<^verbatim>\<open>inputs\<close>: reading
  it fills in the empty mapping, which the document written back then holds. (A node without
  \<^verbatim>\<open>class_type\<close> is not read at all.)
\<close>

theorem api_format_fills_inputs:
  "from_api_format [(''1'', JDict [(''class_type'', JStr ''A'')])]
     = Inr \<lparr> nodes = [(''1'', \<lparr> class_type = ''A'', inputs = [] \<rparr>)] \<rparr>
   \<and> to_api_format \<lparr> nodes = [(''1'', \<lparr> class_type = ''A'', inputs = [] \<rparr>)] \<rparr>
     = [(''1'', JDict [(''class_type'', JStr ''A''), (''inputs'', JDict [])])]
   \<and> \<not> same_document [(''1'', JDict [(''class_type'', JStr ''A''), (''inputs'', JDict [])])]
                      [(''1'', JDict [(''class_type'', JStr ''A'')])]
   \<and> from_api_format [(''1'', JDict [(''inputs'', JDict [])])] = Inl ValidationError"
proof -
  have "map_of [(''class_type'', JStr ''A''), (''inputs'', JDict [])] ''inputs''
          \<noteq> map_of [(''class_type'', JStr ''A'')] ''inputs''"
    by simp
  then have "map_of [(''class_type'', JStr ''A''), (''inputs'', JDict [])]
          \<noteq> map_of [(''class_type'', JStr ''A'')]"
    by metis
  then show ?thesis
    by (simp add: from_api_format_def to_api_format_def WorkflowNode_init_def model_dump_def
          same_document_def)
qed

subsection \<open>Allocation and reading\<close>

lemma alloc_extends:
  "alloc x h = (v, h') \<Longrightarrow> \<exists>ys. h' = h @ ys"
  "alloc_list xs h = (vs, h') \<Longrightarrow> \<exists>ys. h' = h @ ys"
  "alloc_items d h = (kvs, h') \<Longrightarrow> \<exists>ys. h' = h @ ys"
proof (induction x h and xs h and d h arbitrary: v h' and vs h' and kvs h'
       rule: alloc_alloc_list_alloc_items.induct)
  case (6 xs h)
  then show ?case by (fastforce split: prod.splits)
next
  case (7 d h)
  then show ?case by (fastforce split: prod.splits)
next
  case (9 x xs h)
  then show ?case by (fastforce split: prod.splits)
next
  case (11 k x d h)
  then show ?case by (fastforce split: prod.splits)
qed auto

lemma alloc_length:
  "alloc x h = (v, h') \<Longrightarrow> length h \<le> length h'"
  "alloc_list xs h = (vs, h') \<Longrightarrow> length h \<le> length h'"
  "alloc_items d h = (kvs, h') \<Longrightarrow> length h \<le> length h'"
  using alloc_extends by fastforce+

lemma alloc_keeps:
  "alloc x h = (v, h') \<Longrightarrow> a < length h \<Longrightarrow> h' ! a = h ! a"
  "alloc_list xs h = (vs, h') \<Longrightarrow> a < length h \<Longrightarrow> h' ! a = h ! a"
  "alloc_items d h = (kvs, h') \<Longrightarrow> a < length h \<Longrightarrow> h' ! a = h ! a"
  using alloc_extends by (fastforce simp: nth_append)+

lemma alloc_refs:
  "alloc x h = (v, h') \<Longrightarrow> refs_val v \<subseteq> {length h..<length h'}"
  "alloc_list xs h = (vs, h') \<Longrightarrow> \<Union> (refs_val ` set vs) \<subseteq> {length h..<length h'}"
  "alloc_items d h = (kvs, h') \<Longrightarrow> \<Union> (refs_val ` snd ` set kvs) \<subseteq> {length h..<length h'}"
proof (induction x h and xs h and d h arbitrary: v h' and vs h' and kvs h'
       rule: alloc_alloc_list_alloc_items.induct)
  case (6 xs h)
  then obtain vs h1 where a: "alloc_list xs h = (vs, h1)"
    and v: "v = VRef (length h1)" and h': "h' = h1 @ [OList vs]"
    by (auto split: prod.splits)
  from alloc_length(2) [OF a] show ?case by (simp add: v h')
next
  case (7 d h)
  then obtain kvs h1 where a: "alloc_items d h = (kvs, h1)"
    and v: "v = VRef (length h1)" and h': "h' = h1 @ [ODict kvs]"
    by (auto split: prod.splits)
  from alloc_length(3) [OF a] show ?case by (simp add: v h')
next
  case (9 x xs h)
  from "9.prems" obtain v0 h1 vs0 where a: "alloc x h = (v0, h1)"
    and b: "alloc_list xs h1 = (vs0, h')" and vs: "vs = v0 # vs0"
    by (auto split: prod.splits)
  from "9.IH"(1) [OF a] have r1: "refs_val v0 \<subseteq> {length h..<length h1}" .
  from "9.IH"(2) [OF a [symmetric] b]
  have r2: "\<Union> (refs_val ` set vs0) \<subseteq> {length h1..<length h'}" .
  from alloc_length(1) [OF a] alloc_length(2) [OF b] r1 r2 show ?case
    by (auto simp: vs)
next
  case (11 k x d h)
  from "11.prems" obtain v0 h1 kvs0 where a: "alloc x h = (v0, h1)"
    and b: "alloc_items d h1 = (kvs0, h')" and kvs: "kvs = (k, v0) # kvs0"
    by (auto split: prod.splits)
  from "11.IH"(1) [OF a] have r1: "refs_val v0 \<subseteq> {length h..<length h1}" .
  from "11.IH"(2) [OF a [symmetric] b]
  have r2: "\<Union> (refs_val ` snd ` set kvs0) \<subseteq> {length h1..<length h'}" .
  from alloc_length(1) [OF a] alloc_length(3) [OF b] r1 r2 show ?case
    by (auto simp: kvs)
qed auto

lemma alloc_closed:
  "alloc x h = (v, h') \<Longrightarrow> length h \<le> a \<Longrightarrow> a < length h'
     \<Longrightarrow> refs_obj (h' ! a) \<subseteq> {length h..<length h'}"
  "alloc_list xs h = (vs, h') \<Longrightarrow> length h \<le> a \<Longrightarrow> a < length h'
     \<Longrightarrow> refs_obj (h' ! a) \<subseteq> {length h..<length h'}"
  "alloc_items d h = (kvs, h') \<Longrightarrow> length h \<le> a \<Longrightarrow> a < length h'
     \<Longrightarrow> refs_obj (h' ! a) \<subseteq> {length h..<length h'}"
proof (induction x h and xs h and d h arbitrary: v h' a and vs h' a and kvs h' a
       rule: alloc_alloc_list_alloc_items.induct)
  case (6 xs h)
  from "6.prems"(1) obtain vs h1 where al: "alloc_list xs h = (vs, h1)"
    and h': "h' = h1 @ [OList vs]"
    by (auto split: prod.splits)
  show ?case
  proof (cases "a < length h1")
    case True
    from "6.IH" [OF al "6.prems"(2) True] True show ?thesis
      by (auto simp: h' nth_append)
  next
    case False
    with "6.prems"(3) have "a = length h1" by (simp add: h')
    with alloc_refs(2) [OF al] show ?thesis by (auto simp: h')
  qed
next
  case (7 d h)
  from "7.prems"(1) obtain kvs h1 where al: "alloc_items d h = (kvs, h1)"
    and h': "h' = h1 @ [ODict kvs]"
    by (auto split: prod.splits)
  show ?case
  proof (cases "a < length h1")
    case True
    from "7.IH" [OF al "7.prems"(2) True] True show ?thesis
      by (auto simp: h' nth_append)
  next
    case False
    with "7.prems"(3) have "a = length h1" by (simp add: h')
    with alloc_refs(3) [OF al] show ?thesis by (auto simp: h')
  qed
next
  case (9 x xs h)
  from "9.prems"(1) obtain v0 h1 vs0 where al: "alloc x h = (v0, h1)"
    and bl: "alloc_list xs h1 = (vs0, h')"
    by (auto split: prod.splits)
  note l1 = alloc_length(1) [OF al] and l2 = alloc_length(2) [OF bl]
  show ?case
  proof (cases "a < length h1")
    case True
    from "9.IH"(1) [OF al "9.prems"(2) True] alloc_keeps(2) [OF bl True] l2
    show ?thesis by auto
  next
    case False
    then have "length h1 \<le> a" by simp
    from "9.IH"(2) [OF al [symmetric] bl this "9.prems"(3)] l1 show ?thesis by auto
  qed
next
  case (11 k x d h)
  from "11.prems"(1) obtain v0 h1 kvs0 where al: "alloc x h = (v0, h1)"
    and bl: "alloc_items d h1 = (kvs0, h')"
    by (auto split: prod.splits)
  note l1 = alloc_length(1) [OF al] and l2 = alloc_length(3) [OF bl]
  show ?case
  proof (cases "a < length h1")
    case True
    from "11.IH"(1) [OF al "11.prems"(2) True] alloc_keeps(3) [OF bl True] l2
    show ?thesis by auto
  next
    case False
    then have "length h1 \<le> a" by simp
    from "11.IH"(2) [OF al [symmetric] bl this "11.prems"(3)] l1 show ?thesis by auto
  qed
qed auto

lemma alloc_height:
  "alloc x h = (v, h') \<Longrightarrow> length h + height x \<le> length h'"
  "alloc_list xs h = (vs, h') \<Longrightarrow> length h + height_list xs \<le> length h'"
  "alloc_items d h = (kvs, h') \<Longrightarrow> length h + height_items d \<le> length h'"
proof (induction x h and xs h and d h arbitrary: v h' and vs h' and kvs h'
       rule: alloc_alloc_list_alloc_items.induct)
  case (6 xs h)
  then show ?case by (fastforce split: prod.splits)
next
  case (7 d h)
  then show ?case by (fastforce split: prod.splits)
next
  case (9 x xs h)
  from "9.prems" obtain v0 h1 vs0 where al: "alloc x h = (v0, h1)"
    and bl: "alloc_list xs h1 = (vs0, h')"
    by (auto split: prod.splits)
  from "9.IH"(1) [OF al] "9.IH"(2) [OF al [symmetric] bl]
    alloc_length(1) [OF al] alloc_length(2) [OF bl]
  show ?case by simp
next
  case (11 k x d h)
  from "11.prems" obtain v0 h1 kvs0 where al: "alloc x h = (v0, h1)"
    and bl: "alloc_items d h1 = (kvs0, h')"
    by (auto split: prod.splits)
  from "11.IH"(1) [OF al] "11.IH"(2) [OF al [symmetric] bl]
    alloc_length(1) [OF al] alloc_length(3) [OF bl]
  show ?case by simp
qed auto

lemma alloc_read:
  "alloc x h = (v, h') \<Longrightarrow> keeps (length h) (length h') h' h2 \<Longrightarrow> height x \<le> n
     \<Longrightarrow> read_value n h2 v = Some x"
  "alloc_list xs h = (vs, h') \<Longrightarrow> keeps (length h) (length h') h' h2 \<Longrightarrow> height_list xs \<le> n
     \<Longrightarrow> read_list n h2 vs = Some xs"
  "alloc_items d h = (kvs, h') \<Longrightarrow> keeps (length h) (length h') h' h2 \<Longrightarrow> height_items d \<le> n
     \<Longrightarrow> read_items n h2 kvs = Some d"
proof (induction x h and xs h and d h arbitrary: v h' n and vs h' n and kvs h' n
       rule: alloc_alloc_list_alloc_items.induct)
  case (6 xs h)
  from "6.prems"(1) obtain vs h1 where al: "alloc_list xs h = (vs, h1)"
    and v: "v = VRef (length h1)" and h': "h' = h1 @ [OList vs]"
    by (auto split: prod.splits)
  from "6.prems"(3) obtain m where n: "n = Suc m" and m: "height_list xs \<le> m"
    by (cases n) auto
  from "6.prems"(2) alloc_length(2) [OF al]
  have top: "length h1 < length h2" "h2 ! length h1 = OList vs"
    by (auto simp: keeps_def h')
  from "6.prems"(2) have "keeps (length h) (length h1) h1 h2"
    by (auto simp: keeps_def h' nth_append)
  from "6.IH" [OF al this m] top show ?case by (simp add: v n)
next
  case (7 d h)
  from "7.prems"(1) obtain kvs h1 where al: "alloc_items d h = (kvs, h1)"
    and v: "v = VRef (length h1)" and h': "h' = h1 @ [ODict kvs]"
    by (auto split: prod.splits)
  from "7.prems"(3) obtain m where n: "n = Suc m" and m: "height_items d \<le> m"
    by (cases n) auto
  from "7.prems"(2) alloc_length(3) [OF al]
  have top: "length h1 < length h2" "h2 ! length h1 = ODict kvs"
    by (auto simp: keeps_def h')
  from "7.prems"(2) have "keeps (length h) (length h1) h1 h2"
    by (auto simp: keeps_def h' nth_append)
  from "7.IH" [OF al this m] top show ?case by (simp add: v n)
next
  case (9 x xs h)
  from "9.prems"(1) obtain v0 h1 vs0 where al: "alloc x h = (v0, h1)"
    and bl: "alloc_list xs h1 = (vs0, h')" and vs: "vs = v0 # vs0"
    by (auto split: prod.splits)
  note l1 = alloc_length(1) [OF al] and l2 = alloc_length(2) [OF bl]
  from "9.prems"(2) l2 alloc_keeps(2) [OF bl]
  have k1: "keeps (length h) (length h1) h1 h2" by (auto simp: keeps_def)
  from "9.prems"(2) l1 have k2: "keeps (length h1) (length h') h' h2"
    by (auto simp: keeps_def)
  from "9.prems"(3) have n1: "height x \<le> n" and n2: "height_list xs \<le> n" by simp_all
  from "9.IH"(1) [OF al k1 n1] "9.IH"(2) [OF al [symmetric] bl k2 n2]
  show ?case by (simp add: vs)
next
  case (11 k x d h)
  from "11.prems"(1) obtain v0 h1 kvs0 where al: "alloc x h = (v0, h1)"
    and bl: "alloc_items d h1 = (kvs0, h')" and kvs: "kvs = (k, v0) # kvs0"
    by (auto split: prod.splits)
  note l1 = alloc_length(1) [OF al] and l2 = alloc_length(3) [OF bl]
  from "11.prems"(2) l2 alloc_keeps(3) [OF bl]
  have k1: "keeps (length h) (length h1) h1 h2" by (auto simp: keeps_def)
  from "11.prems"(2) l1 have k2: "keeps (length h1) (length h') h' h2"
    by (auto simp: keeps_def)
  from "11.prems"(3) have n1: "height x \<le> n" and n2: "height_items d \<le> n" by simp_all
  from "11.IH"(1) [OF al k1 n1] "11.IH"(2) [OF al [symmetric] bl k2 n2]
  show ?case by (simp add: kvs)
qed auto

lemma reachable_closed:
  assumes "refs_val v \<subseteq> A"
    and "\<And>a. a \<in> A \<Longrightarrow> a < length h \<Longrightarrow> refs_obj (h ! a) \<subseteq> A"
  shows "reachable h v \<subseteq> A"
proof
  fix a
  assume "a \<in> reachable h v"
  then show "a \<in> A"
    by (induction rule: reachable.induct) (use assms in auto)
qed

subsection \<open>The catalog in the heap\<close>

lemma read_items_lookup:
  "read_items n h kvs = Some d \<Longrightarrow>
     keys kvs = keys d
     \<and> (\<forall>k t. map_of d k = Some t \<longrightarrow> (\<exists>v. map_of kvs k = Some v \<and> read_value n h v = Some t))"
proof (induction kvs arbitrary: d)
  case Nil
  then show ?case by (simp add: keys_def)
next
  case (Cons p kvs)
  obtain k v where p: "p = (k, v)" by (cases p)
  from Cons.prems obtain x d0 where x: "read_value n h v = Some x"
    and d0: "read_items n h kvs = Some d0" and d: "d = (k, x) # d0"
    by (auto simp: p split: option.splits)
  from Cons.IH [OF d0] x show ?case by (auto simp: p d keys_def)
qed

lemma templates_round_trip:
  "list_all (\<lambda>(name, t). json_loads (json_dumps t) = Some t) TEMPLATES"
  by code_simp

lemma catalog_in_heap:
  assumes "extends module_heap h"
  shows "\<exists>kvs. heap_dict h TEMPLATES_ref = Inr kvs \<and> keys kvs = keys TEMPLATES
           \<and> (\<forall>name t. map_of TEMPLATES name = Some t
                 \<longrightarrow> (\<exists>v. map_of kvs name = Some v \<and> json_of h v = Some t))"
proof -
  obtain v0 h0 where al: "alloc (JDict TEMPLATES) [] = (v0, h0)" by (cases "alloc (JDict TEMPLATES) []")
  then have mh: "module_heap = h0" and tr: "TEMPLATES_ref = v0"
    by (simp_all add: module_heap_def TEMPLATES_ref_def)
  from al obtain kvs h1 where v0: "v0 = VRef (length h1)" and h0: "h0 = h1 @ [ODict kvs]"
    by (auto split: prod.splits)
  from assms have k: "keeps (length []) (length h0) h0 h"
    by (auto simp: extends_def keeps_def mh)
  from alloc_height(1) [OF al] assms have "height (JDict TEMPLATES) \<le> Suc (length h)"
    by (simp add: extends_def mh)
  from alloc_read(1) [OF al k this]
  have r: "read_value (Suc (length h)) h (VRef (length h1)) = Some (JDict TEMPLATES)"
    by (simp add: v0)
  from assms have top: "length h1 < length h" "h ! length h1 = ODict kvs"
    by (auto simp: extends_def mh h0)
  from r top have ri: "read_items (length h) h kvs = Some TEMPLATES" by auto
  from read_items_lookup [OF ri] top show ?thesis
    by (auto simp: heap_dict_def tr v0 json_of_def)
qed

lemma alloc_copy:
  assumes "alloc t h = (r, h')"
  shows "extends h h'"
    and "reachable h' r \<subseteq> {length h..<length h'}"
    and "keeps (length h) (length h') h' h2 \<Longrightarrow> json_of h2 r = Some t"
proof -
  from alloc_extends(1) [OF assms] show "extends h h'"
    by (auto simp: extends_def nth_append)
  show "reachable h' r \<subseteq> {length h..<length h'}"
  proof (rule reachable_closed)
    show "refs_val r \<subseteq> {length h..<length h'}" by (rule alloc_refs(1) [OF assms])
  next
    fix a
    assume "a \<in> {length h..<length h'}" and "a < length h'"
    then show "refs_obj (h' ! a) \<subseteq> {length h..<length h'}"
      using alloc_closed(1) [OF assms] by simp
  qed
  assume k: "keeps (length h) (length h') h' h2"
  have "height t \<le> length h2"
  proof (cases "length h < length h'")
    case True
    then have "length h \<le> length h' - 1" "length h' - 1 < length h'" by simp_all
    with k have "length h' - 1 < length h2" by (simp add: keeps_def)
    with alloc_height(1) [OF assms] show ?thesis by simp
  next
    case False
    with alloc_height(1) [OF assms] show ?thesis by simp
  qed
  from alloc_read(1) [OF assms k this] show "json_of h2 r = Some t" by (simp add: json_of_def)
qed

lemma keeps_self: "keeps lo (length h) h h"
  by (simp add: keeps_def)

lemma get_workflow_template_found:
  assumes "extends module_heap h" and "map_of TEMPLATES name = Some t"
  shows "get_workflow_template h name = Inr (alloc t h)"
proof -
  from catalog_in_heap [OF assms(1)] assms(2)
  obtain kvs v where hd: "heap_dict h TEMPLATES_ref = Inr kvs" and ks: "keys kvs = keys TEMPLATES"
    and v: "map_of kvs name = Some v" and j: "json_of h v = Some t"
    by blast
  from assms(2) have "(name, t) \<in> set TEMPLATES" by (rule map_of_SomeD)
  with templates_round_trip have rt: "json_loads (json_dumps t) = Some t"
    by (auto simp: list_all_iff)
  from v have "name \<in> set (keys kvs)" by (simp add: in_keys_iff)
  then show ?thesis
    by (simp add: get_workflow_template_def hd v j rt heap_dumps_def heap_loads_def)
qed

lemma get_workflow_template_missing:
  assumes "extends module_heap h" and "name \<notin> set (keys TEMPLATES)"
  shows "get_workflow_template h name
           = Inr (alloc (model_dump_error
                          (not_found (''Template '' @ [SQ] @ name @ [SQ])
                             (Some (''Available: '' @ py_str (JList (map JStr (keys TEMPLATES)))))))
                   h)"
proof -
  from catalog_in_heap [OF assms(1)]
  obtain kvs where hd: "heap_dict h TEMPLATES_ref = Inr kvs" and ks: "keys kvs = keys TEMPLATES"
    by blast
  with assms(2) show ?thesis by (simp add: get_workflow_template_def)
qed

lemma available_names:
  "py_str (JList (map JStr (keys TEMPLATES)))
     = ''['' @ [SQ] @ ''empty'' @ [SQ] @ '', '' @ [SQ] @ ''fal-flux-dev'' @ [SQ] @ '', ''
         @ [SQ] @ ''fal-flux-schnell'' @ [SQ] @ '']''"
  by (simp add: TEMPLATES_def keys_def py_str_def repr_str_def repr_char_def Let_def)

subsection \<open>Reading a template\<close>

text \<open>
  C4. In any state that holds the catalog as the module created it, \<open>get_workflow_template\<close> on
  a name of the catalog returns a reference \<open>r\<close> in a heap \<open>h'\<close> such that: no object that
  existed is changed; \<open>r\<close> reads as the catalog entry; every object reachable from \<open>r\<close> is
  new, so \<open>r\<close> shares nothing with the catalog or with the result of an earlier call; \<open>r\<close>
  keeps its content whatever happens to the other objects; and after any change to the
  objects of \<open>r\<close> (and any allocation) the catalog is as it was and a further call returns a
  result that reads as the same entry and shares no object with \<open>r\<close>.
\<close>

theorem get_workflow_template_independent:
  assumes "extends module_heap h" and "map_of TEMPLATES name = Some t"
  shows "\<exists>r h'. get_workflow_template h name = Inr (r, h')
           \<and> extends h h'
           \<and> json_of h' r = Some t
           \<and> reachable h' r \<subseteq> {length h..<length h'}
           \<and> (\<forall>h2. keeps (length h) (length h') h' h2 \<longrightarrow> json_of h2 r = Some t)
           \<and> (\<forall>h2. length h' \<le> length h2
                     \<and> (\<forall>a < length h'. a \<notin> reachable h' r \<longrightarrow> h2 ! a = h' ! a)
                  \<longrightarrow> extends module_heap h2
                      \<and> (\<exists>r2 h3. get_workflow_template h2 name = Inr (r2, h3)
                             \<and> json_of h3 r2 = Some t
                             \<and> reachable h3 r2 \<inter> reachable h' r = {}))"
proof -
  obtain r h' where al: "alloc t h = (r, h')" by (cases "alloc t h")
  note g = get_workflow_template_found [OF assms]
  note c = alloc_copy [OF al]
  have later: "extends module_heap h2
                 \<and> (\<exists>r2 h3. get_workflow_template h2 name = Inr (r2, h3)
                        \<and> json_of h3 r2 = Some t
                        \<and> reachable h3 r2 \<inter> reachable h' r = {})"
    if len: "length h' \<le> length h2"
      and same: "\<forall>a < length h'. a \<notin> reachable h' r \<longrightarrow> h2 ! a = h' ! a"
    for h2
  proof -
    have e2: "extends module_heap h2"
      unfolding extends_def
    proof (intro conjI allI impI)
      from assms(1) c(1) len show "length module_heap \<le> length h2"
        by (simp add: extends_def)
    next
      fix a
      assume a: "a < length module_heap"
      with assms(1) have ah: "a < length h" by (simp add: extends_def)
      with c(2) have "a \<notin> reachable h' r" by auto
      moreover from ah c(1) have "a < length h'" by (simp add: extends_def)
      ultimately have "h2 ! a = h' ! a" using same by simp
      also from c(1) ah have "h' ! a = h ! a" by (simp add: extends_def)
      also from assms(1) a have "h ! a = module_heap ! a" by (simp add: extends_def)
      finally show "h2 ! a = module_heap ! a" .
    qed
    obtain r2 h3 where al2: "alloc t h2 = (r2, h3)" by (cases "alloc t h2")
    note g2 = get_workflow_template_found [OF e2 assms(2)]
    note c2 = alloc_copy [OF al2]
    from c2(3) [OF keeps_self] have j: "json_of h3 r2 = Some t" .
    have "reachable h3 r2 \<inter> reachable h' r = {}"
    proof -
      have False if "x \<in> reachable h3 r2" and "x \<in> reachable h' r" for x
      proof -
        from that c2(2) c(2) have "length h2 \<le> x" and "x < length h'" by auto
        with len show False by simp
      qed
      then show ?thesis by blast
    qed
    with e2 g2 al2 j show ?thesis by simp
  qed
  from c(3) [OF keeps_self] have "json_of h' r = Some t" .
  with g al c later show ?thesis by auto
qed

theorem get_workflow_template_independent_witness:
  "extends module_heap module_heap
   \<and> map_of TEMPLATES ''empty'' = Some (JDict [])
   \<and> get_workflow_template module_heap ''empty''
       = Inr (VRef (length module_heap), module_heap @ [ODict []])
   \<and> json_of (module_heap @ [ODict []]) (VRef (length module_heap)) = Some (JDict [])
   \<and> length (module_heap @ [ODict []]) \<le> length (module_heap @ [ODict [(''3'', VInt 1)]])
   \<and> extends module_heap (module_heap @ [ODict [(''3'', VInt 1)]])
   \<and> (\<exists>r2 h3. get_workflow_template (module_heap @ [ODict [(''3'', VInt 1)]]) ''empty''
                  = Inr (r2, h3)
          \<and> json_of h3 r2 = Some (JDict [])
          \<and> reachable h3 r2
               \<inter> reachable (module_heap @ [ODict []]) (VRef (length module_heap)) = {})"
proof -
  let ?r = "VRef (length module_heap)"
  let ?h' = "module_heap @ [ODict []]"
  let ?h2 = "module_heap @ [ODict [(''3'', VInt 1)]]"
  have h1: "extends module_heap module_heap" by (simp add: extends_def)
  have h2: "map_of TEMPLATES ''empty'' = Some (JDict [])" by (simp add: TEMPLATES_def)
  have g: "get_workflow_template module_heap ''empty'' = Inr (?r, ?h')"
    by (simp add: get_workflow_template_found [OF h1 h2])
  have len: "length ?h' \<le> length ?h2" by simp
  have same: "\<forall>a < length ?h'. a \<notin> reachable ?h' ?r \<longrightarrow> ?h2 ! a = ?h' ! a"
  proof (intro allI impI)
    fix a
    assume a: "a < length ?h'" and n: "a \<notin> reachable ?h' ?r"
    have "length module_heap \<in> reachable ?h' ?r" by (rule reachable.root) simp
    with n have "a \<noteq> length module_heap" by blast
    with a have "a < length module_heap" by simp
    then show "?h2 ! a = ?h' ! a" by (simp add: nth_append)
  qed
  from get_workflow_template_independent [OF h1 h2] g
  have t: "json_of ?h' ?r = Some (JDict [])
           \<and> (\<forall>h2. length ?h' \<le> length h2
                     \<and> (\<forall>a < length ?h'. a \<notin> reachable ?h' ?r \<longrightarrow> h2 ! a = ?h' ! a)
                  \<longrightarrow> extends module_heap h2
                      \<and> (\<exists>r2 h3. get_workflow_template h2 ''empty'' = Inr (r2, h3)
                             \<and> json_of h3 r2 = Some (JDict [])
                             \<and> reachable h3 r2 \<inter> reachable ?h' ?r = {}))"
    by auto
  from t have j: "json_of ?h' ?r = Some (JDict [])" by (rule conjunct1)
  from t len same
  have l: "extends module_heap ?h2
           \<and> (\<exists>r2 h3. get_workflow_template ?h2 ''empty'' = Inr (r2, h3)
                  \<and> json_of h3 r2 = Some (JDict [])
                  \<and> reachable h3 r2 \<inter> reachable ?h' ?r = {})"
    by blast
  from h1 h2 g j len l show ?thesis by (intro conjI) blast+
qed

text \<open>
  C8. In any state that holds the catalog as the module created it, \<open>get_workflow_template\<close>
  on a name that is not a key of the catalog returns a new dict that reads as the
  \<^verbatim>\<open>NOT_FOUND\<close> error response, whose suggestion lists the three template names; on a name
  that is a key it returns a graph that reads as the catalog entry. It raises in neither case.
\<close>

theorem get_workflow_template_not_found:
  assumes "extends module_heap h"
  shows "(name \<notin> set (keys TEMPLATES) \<longrightarrow>
           (\<exists>r h'. get_workflow_template h name = Inr (r, h')
              \<and> json_of h' r
                  = Some (JDict
                      [(''error'', JStr (''Template '' @ [SQ] @ name @ [SQ] @ '' not found'')),
                       (''code'', JStr ''NOT_FOUND''),
                       (''details'', JNull),
                       (''suggestion'',
                          JStr (''Available: ['' @ [SQ] @ ''empty'' @ [SQ] @ '', ''
                                  @ [SQ] @ ''fal-flux-dev'' @ [SQ] @ '', ''
                                  @ [SQ] @ ''fal-flux-schnell'' @ [SQ] @ '']''))])))
         \<and> (name \<in> set (keys TEMPLATES) \<longrightarrow>
              (\<exists>r h' t. get_workflow_template h name = Inr (r, h')
                 \<and> map_of TEMPLATES name = Some t \<and> json_of h' r = Some t))"
proof (intro conjI impI)
  assume n: "name \<notin> set (keys TEMPLATES)"
  let ?e = "model_dump_error
              (not_found (''Template '' @ [SQ] @ name @ [SQ])
                 (Some (''Available: '' @ py_str (JList (map JStr (keys TEMPLATES))))))"
  obtain r h' where al: "alloc ?e h = (r, h')" by (cases "alloc ?e h")
  from alloc_copy(3) [OF al keeps_self] have "json_of h' r = Some ?e" .
  moreover have "?e = JDict
                      [(''error'', JStr (''Template '' @ [SQ] @ name @ [SQ] @ '' not found'')),
                       (''code'', JStr ''NOT_FOUND''),
                       (''details'', JNull),
                       (''suggestion'',
                          JStr (''Available: ['' @ [SQ] @ ''empty'' @ [SQ] @ '', ''
                                  @ [SQ] @ ''fal-flux-dev'' @ [SQ] @ '', ''
                                  @ [SQ] @ ''fal-flux-schnell'' @ [SQ] @ '']''))]"
    unfolding available_names by (simp add: model_dump_error_def not_found_def)
  ultimately show "\<exists>r h'. get_workflow_template h name = Inr (r, h')
              \<and> json_of h' r
                  = Some (JDict
                      [(''error'', JStr (''Template '' @ [SQ] @ name @ [SQ] @ '' not found'')),
                       (''code'', JStr ''NOT_FOUND''),
                       (''details'', JNull),
                       (''suggestion'',
                          JStr (''Available: ['' @ [SQ] @ ''empty'' @ [SQ] @ '', ''
                                  @ [SQ] @ ''fal-flux-dev'' @ [SQ] @ '', ''
                                  @ [SQ] @ ''fal-flux-schnell'' @ [SQ] @ '']''))])"
    using get_workflow_template_missing [OF assms n] al by simp
next
  assume "name \<in> set (keys TEMPLATES)"
  then obtain t where t: "map_of TEMPLATES name = Some t"
    by (auto simp: in_keys_iff)
  obtain r h' where al: "alloc t h = (r, h')" by (cases "alloc t h")
  from alloc_copy(3) [OF al keeps_self] have "json_of h' r = Some t" .
  with get_workflow_template_found [OF assms t] al t
  show "\<exists>r h' t. get_workflow_template h name = Inr (r, h')
                 \<and> map_of TEMPLATES name = Some t \<and> json_of h' r = Some t"
    by simp
qed

theorem get_workflow_template_not_found_witness:
  "extends module_heap module_heap
   \<and> ''flux'' \<notin> set (keys TEMPLATES)
   \<and> ''fal-flux-dev'' \<in> set (keys TEMPLATES)
   \<and> (\<exists>r h'. get_workflow_template module_heap ''flux'' = Inr (r, h')
          \<and> json_of h' r
              = Some (JDict
                  [(''error'', JStr (''Template '' @ [SQ] @ ''flux'' @ [SQ] @ '' not found'')),
                   (''code'', JStr ''NOT_FOUND''),
                   (''details'', JNull),
                   (''suggestion'',
                      JStr (''Available: ['' @ [SQ] @ ''empty'' @ [SQ] @ '', ''
                              @ [SQ] @ ''fal-flux-dev'' @ [SQ] @ '', ''
                              @ [SQ] @ ''fal-flux-schnell'' @ [SQ] @ '']''))]))
   \<and> (\<exists>r h' t. get_workflow_template module_heap ''fal-flux-dev'' = Inr (r, h')
          \<and> map_of TEMPLATES ''fal-flux-dev'' = Some t \<and> json_of h' r = Some t)"
proof -
  have h1: "extends module_heap module_heap" by (simp add: extends_def)
  have h2: "''flux'' \<notin> set (keys TEMPLATES)" by (simp add: TEMPLATES_def keys_def)
  have h3: "''fal-flux-dev'' \<in> set (keys TEMPLATES)" by (simp add: TEMPLATES_def keys_def)
  from get_workflow_template_not_found [OF h1, of "''flux''"]
       get_workflow_template_not_found [OF h1, of "''fal-flux-dev''"] h1 h2 h3
  show ?thesis by blast
qed

subsection \<open>Loading and saving\<close>

lemma loads_open_brace: "json_loads ''{'' = None"
  by code_simp

text \<open>
  C7. The claim asks that a file that exists but cannot be read or parsed makes \<open>load\<close> fail
  with an I/O error that it reports, as \<^verbatim>\<open>save_workflow\<close> does for its own failures. The code
  has no handler around \<^verbatim>\<open>open\<close> and \<^verbatim>\<open>json.load\<close>: on a file whose text is \<^verbatim>\<open>{\<close> the
  \<^verbatim>\<open>JSONDecodeError\<close> leaves \<open>load_workflow\<close>, and so does the \<^verbatim>\<open>OSError\<close> of a file that cannot
  be read. A missing file is reported as \<^verbatim>\<open>NOT_FOUND\<close> and a file that parses is returned.
\<close>

theorem load_workflow_failure_escapes:
  "load_workflow plain_files (Some ''wf'') [(''wf/bad.json'', ''{'')] ''bad.json''
     = Inl JSONDecodeError
   \<and> load_workflow (plain_files \<lparr> read_text := \<lambda>fs p. Inl (OSError ''Permission denied'') \<rparr>)
        (Some ''wf'') [(''wf/a.json'', ''{}'')] ''a.json''
     = Inl (OSError ''Permission denied'')
   \<and> load_workflow plain_files (Some ''wf'') [(''wf/bad.json'', ''{'')] ''none.json''
     = Inr (JDict [(''error'', JStr (''Workflow '' @ [SQ] @ ''none.json'' @ [SQ] @ '' not found'')),
                   (''code'', JStr ''NOT_FOUND''),
                   (''details'', JNull),
                   (''suggestion'', JStr ''Use list_workflows() to see available workflows'')])
   \<and> load_workflow plain_files (Some ''wf'') [(''wf/a.json'', ''[1]'')] ''a.json''
     = Inr (JList [JInt 1])"
proof -
  have p: "json_loads ''[1]'' = Some (JList [JInt 1])" by code_simp
  show ?thesis
    by (simp add: load_workflow_def plain_files_def unset_def loads_open_brace p
          model_dump_error_def not_found_def)
qed

text \<open>
  C10. Whatever the file system does, \<open>save_workflow\<close> returns a message and raises nothing:
  with the directory not configured the message is
  \<^verbatim>\<open>Error: COMFY_WORKFLOWS_DIR not configured\<close> and nothing is touched; when creating the
  directory or writing the file raises, the message is \<^verbatim>\<open>Error: \<close> and the text of the
  exception; otherwise it is \<^verbatim>\<open>Saved: \<close> and the path that was written, with \<^verbatim>\<open>.json\<close>
  appended to a name that lacks it.
\<close>

theorem save_workflow_messages:
  "(unset dir \<longrightarrow>
      save_workflow os dir fs workflow name
        = (''Error: COMFY_WORKFLOWS_DIR not configured'', fs))
   \<and> (\<not> unset dir
        \<and> mkdir_parents os fs (path_parent os (save_path os dir name)) = (Some e, fs1)
       \<longrightarrow> save_workflow os dir fs workflow name = (''Error: '' @ e, fs1))
   \<and> (\<not> unset dir
        \<and> mkdir_parents os fs (path_parent os (save_path os dir name)) = (None, fs1)
        \<and> write_text os fs1 (save_path os dir name) (json_dumps_indent 2 (JDict workflow))
            = (Some e, fs2)
       \<longrightarrow> save_workflow os dir fs workflow name = (''Error: '' @ e, fs2))
   \<and> (\<not> unset dir
        \<and> mkdir_parents os fs (path_parent os (save_path os dir name)) = (None, fs1)
        \<and> write_text os fs1 (save_path os dir name) (json_dumps_indent 2 (JDict workflow))
            = (None, fs2)
       \<longrightarrow> save_workflow os dir fs workflow name = (''Saved: '' @ save_path os dir name, fs2))
   \<and> (is_prefix ''Error:'' (fst (save_workflow os dir fs workflow name))
        \<or> is_prefix ''Saved: '' (fst (save_workflow os dir fs workflow name)))"
proof -
  have a: "unset dir \<longrightarrow>
      save_workflow os dir fs workflow name
        = (''Error: COMFY_WORKFLOWS_DIR not configured'', fs)"
    by (simp add: save_workflow_def)
  have b: "\<not> unset dir
        \<and> mkdir_parents os fs (path_parent os (save_path os dir name)) = (Some e, fs1)
       \<longrightarrow> save_workflow os dir fs workflow name = (''Error: '' @ e, fs1)"
    by (simp add: save_workflow_def save_path_def Let_def)
  have c: "\<not> unset dir
        \<and> mkdir_parents os fs (path_parent os (save_path os dir name)) = (None, fs1)
        \<and> write_text os fs1 (save_path os dir name) (json_dumps_indent 2 (JDict workflow))
            = (Some e, fs2)
       \<longrightarrow> save_workflow os dir fs workflow name = (''Error: '' @ e, fs2)"
    by (simp add: save_workflow_def save_path_def Let_def)
  have d: "\<not> unset dir
        \<and> mkdir_parents os fs (path_parent os (save_path os dir name)) = (None, fs1)
        \<and> write_text os fs1 (save_path os dir name) (json_dumps_indent 2 (JDict workflow))
            = (None, fs2)
       \<longrightarrow> save_workflow os dir fs workflow name = (''Saved: '' @ save_path os dir name, fs2)"
    by (simp add: save_workflow_def save_path_def Let_def)
  have f: "is_prefix ''Error:'' (fst (save_workflow os dir fs workflow name))
        \<or> is_prefix ''Saved: '' (fst (save_workflow os dir fs workflow name))"
    unfolding save_workflow_def Let_def
    by (simp split: prod.splits option.splits)
  from a b c d f show ?thesis by (intro conjI)
qed

theorem save_workflow_messages_witness:
  "unset None
   \<and> save_workflow plain_files None [] example_graph ''g''
       = (''Error: COMFY_WORKFLOWS_DIR not configured'', [])
   \<and> \<not> unset (Some ''wf'')
   \<and> mkdir_parents plain_files [] (path_parent plain_files (save_path plain_files (Some ''wf'') ''g''))
       = (None, [])
   \<and> write_text plain_files [] (save_path plain_files (Some ''wf'') ''g'')
        (json_dumps_indent 2 (JDict [])) = (None, [(''wf/g.json'', ''{}'')])
   \<and> save_workflow plain_files (Some ''wf'') [] [] ''g''
       = (''Saved: wf/g.json'', [(''wf/g.json'', ''{}'')])
   \<and> mkdir_parents failing_disk [] (path_parent failing_disk (save_path failing_disk (Some ''wf'') ''g''))
       = (Some ''Permission denied'', [])
   \<and> save_workflow failing_disk (Some ''wf'') [] [] ''g'' = (''Error: Permission denied'', [])
   \<and> mkdir_parents full_disk [] (path_parent full_disk (save_path full_disk (Some ''wf'') ''g''))
       = (None, [])
   \<and> write_text full_disk [] (save_path full_disk (Some ''wf'') ''g'')
        (json_dumps_indent 2 (JDict [])) = (Some ''No space left on device'', [])
   \<and> save_workflow full_disk (Some ''wf'') [] [] ''g'' = (''Error: No space left on device'', [])"
proof -
  have u: "unset None" by (simp add: unset_def)
  have n: "\<not> unset (Some ''wf'')" by (simp add: unset_def)
  have p: "save_path plain_files (Some ''wf'') ''g'' = ''wf/g.json''"
    by (simp add: save_path_def plain_files_def endswith_def)
  have m: "mkdir_parents plain_files []
             (path_parent plain_files (save_path plain_files (Some ''wf'') ''g'')) = (None, [])"
    by (simp add: plain_files_def)
  have w: "write_text plain_files [] (save_path plain_files (Some ''wf'') ''g'')
             (json_dumps_indent 2 (JDict [])) = (None, [(''wf/g.json'', ''{}'')])"
    by (simp add: p) (simp add: plain_files_def json_dumps_indent_def)
  have mf: "mkdir_parents failing_disk []
              (path_parent failing_disk (save_path failing_disk (Some ''wf'') ''g''))
            = (Some ''Permission denied'', [])"
    by (simp add: failing_disk_def)
  have md: "mkdir_parents full_disk []
              (path_parent full_disk (save_path full_disk (Some ''wf'') ''g'')) = (None, [])"
    by (simp add: full_disk_def plain_files_def)
  have wd: "write_text full_disk [] (save_path full_disk (Some ''wf'') ''g'')
              (json_dumps_indent 2 (JDict [])) = (Some ''No space left on device'', [])"
    by (simp add: full_disk_def)
  note t1 = save_workflow_messages [of None plain_files "[]" example_graph "''g''"]
  from t1 u have a: "save_workflow plain_files None [] example_graph ''g''
       = (''Error: COMFY_WORKFLOWS_DIR not configured'', [])"
    by simp
  note t2 = save_workflow_messages
              [of "Some ''wf''" plain_files "[]" "[]" "''g''" _ "[]" "[(''wf/g.json'', ''{}'')]"]
  from t2 n m w have b: "save_workflow plain_files (Some ''wf'') [] [] ''g''
       = (''Saved: wf/g.json'', [(''wf/g.json'', ''{}'')])"
    by (simp add: p)
  note t3 = save_workflow_messages
              [of "Some ''wf''" failing_disk "[]" "[]" "''g''" "''Permission denied''" "[]"]
  from t3 n mf have c: "save_workflow failing_disk (Some ''wf'') [] [] ''g''
       = (''Error: Permission denied'', [])"
    by simp
  note t4 = save_workflow_messages
              [of "Some ''wf''" full_disk "[]" "[]" "''g''" "''No space left on device''" "[]" "[]"]
  from t4 n md wd have d: "save_workflow full_disk (Some ''wf'') [] [] ''g''
       = (''Error: No space left on device'', [])"
    by simp
  from u a n m w b mf c md wd d show ?thesis by (intro conjI)
qed

end
